theory Spec2Isabelle
  imports Complex_Main "HOL-Library.Char_ord" "HOL-Library.List_Lexorder"
begin

section \<open>The Redis check: data model\<close>

text \<open>
  The development embeds \<^verbatim>\<open>redis/checks/redisdb.py\<close> (class \<^verbatim>\<open>Redis\<close>, Python 2).

  Python values that a status snapshot can hold: integers (unbounded), floats, byte
  strings and nested dictionaries. A dictionary is an association list in the order
  in which \<^verbatim>\<open>keys()\<close> enumerates it; Python fixes no such order, so no statement
  below depends on a particular one unless it says so.

  Floats are carried as exact rationals: the rounding error of IEEE-754 doubles is
  not part of the model; infinities and NaN have no counterpart.
\<close>

datatype pyval =
    PInt int
  | PFloat rat
  | PStr string
  | PDict "(string \<times> pyval) list"

text \<open>The exceptions the check can meet. \<open>KeyError\<close> carries the missing key,
  \<open>ResponseError\<close> and \<open>OtherError\<close> the message of the client library.\<close>

datatype exn =
    AttributeError
  | TypeError
  | ValueError
  | KeyError string
  | ZeroDivisionError
  | UnboundLocalError string
  | ResponseError string
  | OtherError string

text \<open>A sample handed to the metric sink by \<^verbatim>\<open>self.gauge\<close> or \<^verbatim>\<open>self.rate\<close>:
  metric name, value, tags.\<close>

datatype sample =
    Gauge string pyval "string list"
  | Rate string pyval "string list"

text \<open>A call of the logger. The message is kept as the format string and the
  arguments of the \<^verbatim>\<open>%\<close> operator, in order.\<close>

datatype fmt_arg = ArgVal pyval | ArgExn exn

datatype log_entry =
    LogError string "fmt_arg list"
  | LogException string "fmt_arg list"

text \<open>A connection handle is the argument tuple of the \<^verbatim>\<open>redis.Redis\<close>
  constructor that made it; \<open>c_password = None\<close> is the constructor call without
  the \<^verbatim>\<open>password\<close> keyword.\<close>

record conn =
  c_host :: string
  c_port :: int
  c_password :: "string option"
  c_db :: int

text \<open>
  The state of a \<^verbatim>\<open>Redis\<close> check object: the two dictionaries of
  \<^verbatim>\<open>__init__\<close>, the samples already given to the sink, the log, and the
  list of connections the \<^verbatim>\<open>redis.Redis\<close> constructor has built so far.
\<close>

record check_state =
  previous_total_commands :: "string list \<rightharpoonup> pyval"
  connections :: "(string \<times> int \<times> int) \<rightharpoonup> conn"
  metrics :: "sample list"
  logs :: "log_entry list"
  constructed :: "conn list"

definition init_state :: check_state where
  "init_state = \<lparr>previous_total_commands = Map.empty, connections = Map.empty,
     metrics = [], logs = [], constructed = []\<rparr>"

text \<open>
  What the world outside the check answers during one invocation:
  whether the installed client library accepts the \<^verbatim>\<open>password\<close> keyword,
  the two readings of \<^verbatim>\<open>time.time()\<close>, the reply of \<^verbatim>\<open>conn.info()\<close>, the
  reply of \<^verbatim>\<open>conn.llen(name)\<close>, and the builtin \<^verbatim>\<open>float\<close> on a string
  (\<open>None\<close> is its \<^verbatim>\<open>ValueError\<close>).
\<close>

record redis_env =
  auth_supported :: bool
  time_start :: rat
  time_end :: rat
  info_reply :: "exn + (string \<times> pyval) list"
  llen_reply :: "string \<Rightarrow> exn + pyval"
  float_of_str :: "string \<Rightarrow> rat option"

section \<open>Class attributes\<close>

definition is_digit :: "char \<Rightarrow> bool" where
  "is_digit c = (c \<in> set ''0123456789'')"

text \<open>\<^verbatim>\<open>db_key_pattern = re.compile(r'^db\d+')\<close>, used with \<^verbatim>\<open>match\<close>: the key
  starts with \<^verbatim>\<open>db\<close> and a digit.\<close>

definition db_key_pattern_match :: "string \<Rightarrow> bool" where
  "db_key_pattern_match k =
     (case k of c1 # c2 # c3 # _ \<Rightarrow> c1 = CHR ''d'' \<and> c2 = CHR ''b'' \<and> is_digit c3
      | _ \<Rightarrow> False)"

text \<open>\<^verbatim>\<open>GAUGE_KEYS\<close>, \<^verbatim>\<open>RATE_KEYS\<close> and \<^verbatim>\<open>RATIO_KEYS\<close> are dictionaries. They are
  listed, and iterated, in the order of the source text; Python iterates them in an
  order of its own, so the order of the db-wide samples among themselves is the
  model's.\<close>

definition subkeys :: "string list" where
  "subkeys = [''keys'', ''expires'']"

definition GAUGE_KEYS :: "(string \<times> string) list" where
  "GAUGE_KEYS =
    [(''aof_last_rewrite_time_sec'', ''redis.aof.last_rewrite_time''),
     (''aof_rewrite_in_progress'', ''redis.aof.rewrite''),
     (''aof_current_size'', ''redis.aof.size''),
     (''aof_buffer_length'', ''redis.aof.buffer_length''),
     (''connected_clients'', ''redis.net.clients''),
     (''connected_slaves'', ''redis.net.slaves''),
     (''rejected_connections'', ''redis.net.rejected''),
     (''blocked_clients'', ''redis.clients.blocked''),
     (''client_biggest_input_buf'', ''redis.clients.biggest_input_buf''),
     (''client_longest_output_list'', ''redis.clients.longest_output_list''),
     (''evicted_keys'', ''redis.keys.evicted''),
     (''expired_keys'', ''redis.keys.expired''),
     (''keyspace_hits'', ''redis.stats.keyspace_hits''),
     (''keyspace_misses'', ''redis.stats.keyspace_misses''),
     (''latest_fork_usec'', ''redis.perf.latest_fork_usec''),
     (''pubsub_channels'', ''redis.pubsub.channels''),
     (''pubsub_patterns'', ''redis.pubsub.patterns''),
     (''rdb_bgsave_in_progress'', ''redis.rdb.bgsave''),
     (''rdb_changes_since_last_save'', ''redis.rdb.changes_since_last''),
     (''rdb_last_bgsave_time_sec'', ''redis.rdb.last_bgsave_time''),
     (''mem_fragmentation_ratio'', ''redis.mem.fragmentation_ratio''),
     (''used_memory'', ''redis.mem.used''),
     (''used_memory_lua'', ''redis.mem.lua''),
     (''used_memory_peak'', ''redis.mem.peak''),
     (''used_memory_rss'', ''redis.mem.rss''),
     (''master_last_io_seconds_ago'', ''redis.replication.last_io_seconds_ago''),
     (''master_sync_in_progress'', ''redis.replication.sync''),
     (''master_sync_left_bytes'', ''redis.replication.sync_left_bytes'')]"

definition RATE_KEYS :: "(string \<times> string) list" where
  "RATE_KEYS =
    [(''used_cpu_sys'', ''redis.cpu.sys''),
     (''used_cpu_sys_children'', ''redis.cpu.sys_children''),
     (''used_cpu_user'', ''redis.cpu.user''),
     (''used_cpu_user_children'', ''redis.cpu.user_children'')]"

text \<open>\<^verbatim>\<open>RATIO_KEYS\<close>: derived name, then the two fields \<^verbatim>\<open>values[0]\<close> and
  \<^verbatim>\<open>values[1]\<close>.\<close>

definition RATIO_KEYS :: "(string \<times> string \<times> string) list" where
  "RATIO_KEYS = [(''hit_ratio'', ''keyspace_hits'', ''keyspace_misses'')]"

section \<open>Python builtins used by the check\<close>

text \<open>\<^verbatim>\<open>s.split(sep)\<close> for a one-character separator: always at least one item.\<close>

fun split_on :: "char \<Rightarrow> string \<Rightarrow> string list" where
  "split_on d [] = [[]]"
| "split_on d (c # cs) =
     (let r = split_on d cs in if c = d then [] # r else (c # hd r) # tl r)"

text \<open>\<^verbatim>\<open>s.rsplit(sep, 1)\<close>: cut at the last separator, or the string alone when
  there is none.\<close>

definition rsplit1 :: "char \<Rightarrow> string \<Rightarrow> string list" where
  "rsplit1 d s =
     (if d \<in> set s
      then [rev (drop 1 (dropWhile (\<lambda>c. c \<noteq> d) (rev s))), rev (takeWhile (\<lambda>c. c \<noteq> d) (rev s))]
      else [s])"

definition is_space :: "char \<Rightarrow> bool" where
  "is_space c = (c \<in> {CHR '' '', CHR 0x09, CHR 0x0A, CHR 0x0B, CHR 0x0C, CHR 0x0D})"

definition strip :: "string \<Rightarrow> string" where
  "strip s = rev (dropWhile is_space (rev (dropWhile is_space s)))"

definition digit_val :: "char \<Rightarrow> int" where
  "digit_val c = int (of_char c) - 48"

definition digits_val :: "string \<Rightarrow> int" where
  "digits_val ds = foldl (\<lambda>acc c. 10 * acc + digit_val c) 0 ds"

text \<open>\<^verbatim>\<open>int(s)\<close> on a string, base 10: surrounding white space, one optional sign,
  one or more decimal digits; anything else is a \<^verbatim>\<open>ValueError\<close>.\<close>

definition py_int :: "string \<Rightarrow> exn + int" where
  "py_int s =
     (let t = strip s;
          neg = (t \<noteq> [] \<and> hd t = CHR ''-'');
          ds = (if t \<noteq> [] \<and> (hd t = CHR ''-'' \<or> hd t = CHR ''+'') then tl t else t)
      in if ds \<noteq> [] \<and> list_all is_digit ds
         then Inr (if neg then - digits_val ds else digits_val ds)
         else Inl ValueError)"

text \<open>\<^verbatim>\<open>float(v)\<close>.\<close>

definition py_float :: "(string \<Rightarrow> rat option) \<Rightarrow> pyval \<Rightarrow> exn + rat" where
  "py_float fl v =
     (case v of
        PInt i \<Rightarrow> Inr (of_int i)
      | PFloat q \<Rightarrow> Inr q
      | PStr s \<Rightarrow> (case fl s of Some q \<Rightarrow> Inr q | None \<Rightarrow> Inl ValueError)
      | PDict _ \<Rightarrow> Inl TypeError)"

text \<open>Float division \<^verbatim>\<open>a / b\<close>.\<close>

definition py_fdiv :: "rat \<Rightarrow> rat \<Rightarrow> exn + rat" where
  "py_fdiv a b = (if b = 0 then Inl ZeroDivisionError else Inr (a / b))"

text \<open>\<^verbatim>\<open>round(x, 2)\<close> of Python 2: to two decimals, halves away from zero.\<close>

definition py_round2 :: "rat \<Rightarrow> rat" where
  "py_round2 q =
     (if 0 \<le> q then of_int \<lfloor>q * 100 + 1 / 2\<rfloor> / 100
      else - (of_int \<lfloor>- q * 100 + 1 / 2\<rfloor> / 100))"

text \<open>\<^verbatim>\<open>a - b\<close>.\<close>

fun py_sub :: "pyval \<Rightarrow> pyval \<Rightarrow> exn + pyval" where
  "py_sub (PInt a) (PInt b) = Inr (PInt (a - b))"
| "py_sub (PInt a) (PFloat b) = Inr (PFloat (of_int a - b))"
| "py_sub (PFloat a) (PInt b) = Inr (PFloat (a - of_int b))"
| "py_sub (PFloat a) (PFloat b) = Inr (PFloat (a - b))"
| "py_sub _ _ = Inl TypeError"

text \<open>\<^verbatim>\<open>0 == v\<close>, the test behind \<^verbatim>\<open>0 in [val1, val2]\<close>.\<close>

fun py_eq_zero :: "pyval \<Rightarrow> bool" where
  "py_eq_zero (PInt i) = (i = 0)"
| "py_eq_zero (PFloat q) = (q = 0)"
| "py_eq_zero _ = False"

text \<open>\<^verbatim>\<open>d[k]\<close> on a value: a dictionary looks the key up, anything else cannot
  be indexed by a string.\<close>

definition py_getitem :: "pyval \<Rightarrow> string \<Rightarrow> exn + pyval" where
  "py_getitem v k =
     (case v of
        PDict d \<Rightarrow> (case map_of d k of Some x \<Rightarrow> Inr x | None \<Rightarrow> Inl (KeyError k))
      | _ \<Rightarrow> Inl TypeError)"

text \<open>\<^verbatim>\<open>"%s" % n\<close> for an integer: its decimal digits.\<close>

fun str_nat :: "nat \<Rightarrow> string" where
  "str_nat n =
     (if n < 10 then [char_of (48 + n)]
      else str_nat (n div 10) @ [char_of (48 + n mod 10)])"

definition str_int :: "int \<Rightarrow> string" where
  "str_int i = (if i < 0 then CHR ''-'' # str_nat (nat (- i)) else str_nat (nat i))"

section \<open>The sink and the logger\<close>

definition gauge :: "check_state \<Rightarrow> string \<Rightarrow> pyval \<Rightarrow> string list \<Rightarrow> check_state" where
  "gauge st name v tags = st\<lparr>metrics := metrics st @ [Gauge name v tags]\<rparr>"

definition rate :: "check_state \<Rightarrow> string \<Rightarrow> pyval \<Rightarrow> string list \<Rightarrow> check_state" where
  "rate st name v tags = st\<lparr>metrics := metrics st @ [Rate name v tags]\<rparr>"

definition log_error :: "check_state \<Rightarrow> string \<Rightarrow> fmt_arg list \<Rightarrow> check_state" where
  "log_error st fmt args = st\<lparr>logs := logs st @ [LogError fmt args]\<rparr>"

definition log_exception :: "check_state \<Rightarrow> string \<Rightarrow> fmt_arg list \<Rightarrow> check_state" where
  "log_exception st fmt args = st\<lparr>logs := logs st @ [LogException fmt args]\<rparr>"

text \<open>A \<^verbatim>\<open>for\<close> loop whose body may raise: the first exception ends the loop and
  keeps the state reached.\<close>

fun for_each ::
  "('a \<Rightarrow> check_state \<Rightarrow> exn option \<times> check_state) \<Rightarrow> 'a list \<Rightarrow> check_state
     \<Rightarrow> exn option \<times> check_state" where
  "for_each body [] st = (None, st)"
| "for_each body (x # xs) st =
     (case body x st of
        (None, st1) \<Rightarrow> for_each body xs st1
      | (Some e, st1) \<Rightarrow> (Some e, st1))"

text \<open>Statements in sequence: what follows an exception is not run.\<close>

definition and_then ::
  "exn option \<times> check_state \<Rightarrow> (check_state \<Rightarrow> exn option \<times> check_state)
     \<Rightarrow> exn option \<times> check_state" where
  "and_then r f = (case r of (None, st) \<Rightarrow> f st | (Some e, st) \<Rightarrow> (Some e, st))"

section \<open>\<^verbatim>\<open>_parse_dict_string\<close> (lines 83 to 96)\<close>

text \<open>The body of the outer \<^verbatim>\<open>try\<close>: the loop over \<^verbatim>\<open>string.split(',')\<close>.
  Unpacking \<^verbatim>\<open>k, v = item.rsplit('=', 1)\<close> needs exactly two parts; a
  \<^verbatim>\<open>ValueError\<close> of \<^verbatim>\<open>int(v)\<close> is caught on the spot and gives \<^verbatim>\<open>v\<close> back.\<close>

fun parse_items :: "string list \<Rightarrow> string \<Rightarrow> pyval \<Rightarrow> exn + pyval" where
  "parse_items [] key dflt = Inr dflt"
| "parse_items (item # items) key dflt =
     (case rsplit1 CHR ''='' item of
        [k, v] \<Rightarrow>
          if k = key
          then (case py_int v of Inr n \<Rightarrow> Inr (PInt n) | Inl _ \<Rightarrow> Inr (PStr v))
          else parse_items items key dflt
      | _ \<Rightarrow> Inl ValueError)"

text \<open>Only a string has \<^verbatim>\<open>split\<close>; any exception of the body is logged and the
  default returned.\<close>

definition parse_dict_string ::
  "check_state \<Rightarrow> pyval \<Rightarrow> string \<Rightarrow> pyval \<Rightarrow> pyval \<times> check_state" where
  "parse_dict_string st string key dflt =
     (case (case string of
              PStr s \<Rightarrow> parse_items (split_on CHR '','' s) key dflt
            | _ \<Rightarrow> Inl AttributeError) of
        Inr v \<Rightarrow> (v, st)
      | Inl e \<Rightarrow>
          (dflt, log_exception st ''Cannot parse dictionary string: %s'' [ArgVal string]))"

section \<open>\<^verbatim>\<open>_get_conn\<close> (lines 98 to 111)\<close>

definition get_conn ::
  "redis_env \<Rightarrow> check_state \<Rightarrow> string \<Rightarrow> int \<Rightarrow> string option \<Rightarrow> int
     \<Rightarrow> (exn + conn) \<times> check_state" where
  "get_conn env st host port password db =
     (let key = (host, port, db) in
      case connections st key of
        Some c \<Rightarrow> (Inr c, st)
      | None \<Rightarrow>
          (case password of
             Some pw \<Rightarrow>
               if length pw > 0
               then
                 (if auth_supported env
                  then
                    (let c = \<lparr>c_host = host, c_port = port, c_password = Some pw, c_db = db\<rparr>
                     in (Inr c, st\<lparr>connections := (connections st)(key \<mapsto> c),
                                    constructed := constructed st @ [c]\<rparr>))
                  else
                    (Inl TypeError,
                     log_exception st
                       ''You need a redis library that supports authenticated connections. Try easy_install redis.''
                       []))
               else
                 (let c = \<lparr>c_host = host, c_port = port, c_password = None, c_db = db\<rparr>
                  in (Inr c, st\<lparr>connections := (connections st)(key \<mapsto> c),
                                 constructed := constructed st @ [c]\<rparr>))
           | None \<Rightarrow>
               (let c = \<lparr>c_host = host, c_port = port, c_password = None, c_db = db\<rparr>
                in (Inr c, st\<lparr>connections := (connections st)(key \<mapsto> c),
                               constructed := constructed st @ [c]\<rparr>))))"

section \<open>\<^verbatim>\<open>_check_db\<close> (lines 113 to 176)\<close>

text \<open>Lines 115 to 117: the sorted list of the distinct tags.\<close>

definition mk_tags :: "string \<Rightarrow> int \<Rightarrow> string list \<Rightarrow> string list" where
  "mk_tags host port custom_tags =
     sort (remdups (custom_tags @ [''redis_host:'' @ host, ''redis_port:'' @ str_int port]))"

subsection \<open>Save the database statistics (lines 126 to 146)\<close>

text \<open>Lines 133 to 139, one subkey: \<^verbatim>\<open>get\<close> on a dictionary, and on anything else
  the \<^verbatim>\<open>AttributeError\<close> that sends the value to \<^verbatim>\<open>_parse_dict_string\<close>.\<close>

definition save_subkey ::
  "pyval \<Rightarrow> string list \<Rightarrow> check_state \<Rightarrow> string \<Rightarrow> check_state" where
  "save_subkey entry db_tags st subkey =
     (let (val, st1) =
            (case entry of
               PDict d \<Rightarrow> ((case map_of d subkey of Some x \<Rightarrow> x | None \<Rightarrow> PInt (- 1)), st)
             | _ \<Rightarrow> parse_dict_string st entry subkey (PInt (- 1)))
      in gauge st1 (''redis'' @ ''.'' @ subkey) val db_tags)"

text \<open>Line 143, the argument of the gauge: both subscripts and both conversions
  can raise, and so can the division.\<close>

definition expires_ratio :: "(string \<Rightarrow> rat option) \<Rightarrow> pyval \<Rightarrow> exn + rat" where
  "expires_ratio fl entry =
     (case py_getitem entry ''expires'' of Inl e \<Rightarrow> Inl e | Inr ev \<Rightarrow>
     (case py_float fl ev of Inl e \<Rightarrow> Inl e | Inr a \<Rightarrow>
     (case py_getitem entry ''keys'' of Inl e \<Rightarrow> Inl e | Inr kv \<Rightarrow>
     (case py_float fl kv of Inl e \<Rightarrow> Inl e | Inr b \<Rightarrow>
     (case py_fdiv a b of Inl e \<Rightarrow> Inl e | Inr q \<Rightarrow> Inr (py_round2 (100 * q)))))))"

text \<open>The body of \<^verbatim>\<open>for key in info.keys()\<close>. The \<^verbatim>\<open>try\<close> of lines 141 to
  146 catches \<^verbatim>\<open>AttributeError\<close> and nothing else.\<close>

definition save_db_entry ::
  "(string \<Rightarrow> rat option) \<Rightarrow> (string \<times> pyval) list \<Rightarrow> string list \<Rightarrow> string
     \<Rightarrow> check_state \<Rightarrow> exn option \<times> check_state" where
  "save_db_entry fl info tags key st =
     (if db_key_pattern_match key
      then
        (case map_of info key of
           None \<Rightarrow> (Some (KeyError key), st)
         | Some entry \<Rightarrow>
             (let db_tags = tags @ [''redis_db:'' @ key];
                  st1 = foldl (save_subkey entry db_tags) st subkeys
              in case expires_ratio fl entry of
                   Inr r \<Rightarrow> (None, gauge st1 ''redis.expires_ratio'' (PFloat r) db_tags)
                 | Inl AttributeError \<Rightarrow> (None, st1)
                 | Inl e \<Rightarrow> (Some e, st1)))
      else (None, st))"

definition save_db_stats ::
  "(string \<Rightarrow> rat option) \<Rightarrow> (string \<times> pyval) list \<Rightarrow> string list
     \<Rightarrow> check_state \<Rightarrow> exn option \<times> check_state" where
  "save_db_stats fl info tags st = for_each (save_db_entry fl info tags) (map fst info) st"

subsection \<open>Save a subset of db-wide statistics (lines 149 and 150)\<close>

definition save_gauges :: "(string \<times> pyval) list \<Rightarrow> string list \<Rightarrow> check_state \<Rightarrow> check_state" where
  "save_gauges info tags st =
     foldl (\<lambda>s (k, m). case map_of info k of Some v \<Rightarrow> gauge s m v tags | None \<Rightarrow> s)
       st GAUGE_KEYS"

definition save_rates :: "(string \<times> pyval) list \<Rightarrow> string list \<Rightarrow> check_state \<Rightarrow> check_state" where
  "save_rates info tags st =
     foldl (\<lambda>s (k, m). case map_of info k of Some v \<Rightarrow> rate s m v tags | None \<Rightarrow> s)
       st RATE_KEYS"

subsection \<open>Calculate ratios (lines 153 to 159)\<close>

definition calc_ratio ::
  "(string \<Rightarrow> rat option) \<Rightarrow> (string \<times> pyval) list \<Rightarrow> string list
     \<Rightarrow> string \<times> string \<times> string \<Rightarrow> check_state \<Rightarrow> exn option \<times> check_state" where
  "calc_ratio fl info tags entry st =
     (case entry of (name, field0, field1) \<Rightarrow>
     (case map_of info field0 of None \<Rightarrow> (Some (KeyError field0), st) | Some val1 \<Rightarrow>
     (case map_of info field1 of None \<Rightarrow> (Some (KeyError field1), st) | Some val2 \<Rightarrow>
      if \<not> (py_eq_zero val1 \<or> py_eq_zero val2)
      then
        (case py_float fl val1 of Inl e \<Rightarrow> (Some e, st) | Inr a \<Rightarrow>
        (case py_float fl val2 of Inl e \<Rightarrow> (Some e, st) | Inr b \<Rightarrow>
        (case py_fdiv a b of Inl e \<Rightarrow> (Some e, st) | Inr q \<Rightarrow>
           (None, gauge st (''redis.'' @ name) (PFloat (py_round2 (100 * q))) tags))))
      else (None, st))))"

definition calc_ratios ::
  "(string \<Rightarrow> rat option) \<Rightarrow> (string \<times> pyval) list \<Rightarrow> string list
     \<Rightarrow> check_state \<Rightarrow> exn option \<times> check_state" where
  "calc_ratios fl info tags st = for_each (calc_ratio fl info tags) RATIO_KEYS st"

subsection \<open>Calculate the length of lists (lines 163 to 168)\<close>

text \<open>The variable \<^verbatim>\<open>key\<close> of line 167 is the one the loop of line 126 left
  behind: the last key of the snapshot, and unbound when the snapshot is empty.\<close>

definition leftover_key :: "(string \<times> pyval) list \<Rightarrow> string option" where
  "leftover_key info = (if info = [] then None else Some (fst (last info)))"

definition list_length ::
  "(string \<Rightarrow> exn + pyval) \<Rightarrow> (string \<times> pyval) list \<Rightarrow> string list \<Rightarrow> string
     \<Rightarrow> check_state \<Rightarrow> exn option \<times> check_state" where
  "list_length llen info tags name st =
     (case llen name of
        Inr n \<Rightarrow> (None, gauge st (''redis.llen.'' @ name) n tags)
      | Inl (ResponseError m) \<Rightarrow>
          (case leftover_key info of
             Some key \<Rightarrow>
               (None, log_error st ''Could not get length of %s: %s ''
                        [ArgVal (PStr key), ArgExn (ResponseError m)])
           | None \<Rightarrow> (Some (UnboundLocalError ''key''), st))
      | Inl e \<Rightarrow> (Some e, st))"

definition list_lengths_step ::
  "(string \<Rightarrow> exn + pyval) \<Rightarrow> (string \<times> pyval) list \<Rightarrow> string list \<Rightarrow> string list
     \<Rightarrow> check_state \<Rightarrow> exn option \<times> check_state" where
  "list_lengths_step llen info tags list_lengths st =
     for_each (list_length llen info tags) list_lengths st"

subsection \<open>Save the number of commands (lines 171 to 176)\<close>

definition save_commands ::
  "(string \<times> pyval) list \<Rightarrow> string list \<Rightarrow> check_state \<Rightarrow> exn option \<times> check_state" where
  "save_commands info tags st =
     (case map_of info ''total_commands_processed'' of
        None \<Rightarrow> (Some (KeyError ''total_commands_processed''), st)
      | Some v \<Rightarrow>
          (case py_sub v (PInt 1) of
             Inl e \<Rightarrow> (Some e, st)
           | Inr total_commands \<Rightarrow>
               (case previous_total_commands st tags of
                  Some prev \<Rightarrow>
                    (case py_sub total_commands prev of
                       Inl e \<Rightarrow> (Some e, st)
                     | Inr count \<Rightarrow>
                         (let st1 = gauge st ''redis.net.commands'' count tags
                          in (None, st1\<lparr>previous_total_commands :=
                                          (previous_total_commands st1)(tags \<mapsto> total_commands)\<rparr>)))
                | None \<Rightarrow>
                    (None, st\<lparr>previous_total_commands :=
                                (previous_total_commands st)(tags \<mapsto> total_commands)\<rparr>))))"

subsection \<open>The whole method\<close>

text \<open>Lines 126 to 168: the statements between the latency gauge and the command
  count.\<close>

definition emit_metrics ::
  "redis_env \<Rightarrow> (string \<times> pyval) list \<Rightarrow> string list \<Rightarrow> string list
     \<Rightarrow> check_state \<Rightarrow> exn option \<times> check_state" where
  "emit_metrics env info tags list_lengths st =
     and_then (save_db_stats (float_of_str env) info tags st) (\<lambda>st1.
     and_then (None, save_rates info tags (save_gauges info tags st1)) (\<lambda>st2.
     and_then (calc_ratios (float_of_str env) info tags st2) (\<lambda>st3.
     list_lengths_step (llen_reply env) info tags list_lengths st3)))"

text \<open>Lines 126 to 176, everything after the latency gauge.\<close>

definition extract_and_emit ::
  "redis_env \<Rightarrow> (string \<times> pyval) list \<Rightarrow> string list \<Rightarrow> string list
     \<Rightarrow> check_state \<Rightarrow> exn option \<times> check_state" where
  "extract_and_emit env info tags list_lengths st =
     and_then (emit_metrics env info tags list_lengths st) (save_commands info tags)"

definition check_db ::
  "redis_env \<Rightarrow> check_state \<Rightarrow> string \<Rightarrow> int \<Rightarrow> string option \<Rightarrow> int \<Rightarrow> string list
     \<Rightarrow> string list \<Rightarrow> exn option \<times> check_state" where
  "check_db env st host port password db list_lengths custom_tags =
     (case get_conn env st host port password db of
        (Inl e, st0) \<Rightarrow> (Some e, st0)
      | (Inr c, st0) \<Rightarrow>
          (let tags = mk_tags host port custom_tags in
           case info_reply env of
             Inl e \<Rightarrow> (Some e, st0)
           | Inr info \<Rightarrow>
               (let latency_ms = py_round2 ((time_end env - time_start env) * 1000);
                    st1 = gauge st0 ''redis.info.latency_ms'' (PFloat latency_ms) tags
                in extract_and_emit env info tags list_lengths st1)))"

section \<open>Reading the effects of an invocation\<close>

definition sample_name :: "sample \<Rightarrow> string" where
  "sample_name s = (case s of Gauge n _ _ \<Rightarrow> n | Rate n _ _ \<Rightarrow> n)"

text \<open>The samples the sink received between two states of the check object.\<close>

definition emitted :: "check_state \<Rightarrow> check_state \<Rightarrow> sample list" where
  "emitted st st' = drop (length (metrics st)) (metrics st')"

text \<open>Between two states the command counts are untouched and the sink received
  only samples that satisfy \<open>Q\<close>.\<close>

definition keeps :: "(sample \<Rightarrow> bool) \<Rightarrow> check_state \<Rightarrow> check_state \<Rightarrow> bool" where
  "keeps Q st st' =
     (previous_total_commands st' = previous_total_commands st
      \<and> (\<exists>new. metrics st' = metrics st @ new \<and> list_all Q new))"


text \<open>A world for the worked examples: the clock stands still and \<^verbatim>\<open>float\<close>
  accepts no string; the capability of the client library and the replies of the
  server are given.\<close>

definition env_of ::
  "bool \<Rightarrow> exn + (string \<times> pyval) list \<Rightarrow> (string \<Rightarrow> exn + pyval) \<Rightarrow> redis_env" where
  "env_of auth info llen =
     \<lparr>auth_supported = auth, time_start = 0, time_end = 0, info_reply = info,
      llen_reply = llen, float_of_str = (\<lambda>_. None)\<rparr>"

text \<open>One poll of a server on \<^verbatim>\<open>localhost:6379\<close> that reports 80 hits, 20 misses
  and \<open>n\<close> commands, with no password, no custom tag and no list to measure.\<close>

definition poll_info :: "int \<Rightarrow> (string \<times> pyval) list" where
  "poll_info n =
     [(''keyspace_hits'', PInt 80), (''keyspace_misses'', PInt 20),
      (''total_commands_processed'', PInt n)]"

definition poll :: "check_state \<Rightarrow> int \<Rightarrow> exn option \<times> check_state" where
  "poll st n =
     check_db (env_of True (Inr (poll_info n)) (\<lambda>_. Inr (PInt 0))) st
       ''localhost'' 6379 None 0 [] []"

section \<open>Facts about the builtins\<close>

declare str_nat.simps [simp del]

lemma split_on_nonempty: "split_on d s \<noteq> []"
  by (induction s) (auto simp: Let_def)

lemma split_on_chars: "item \<in> set (split_on d s) \<Longrightarrow> set item \<subseteq> set s"
proof (induction s arbitrary: item)
  case Nil
  then show ?case by simp
next
  case (Cons c cs)
  have ne: "split_on d cs \<noteq> []" by (rule split_on_nonempty)
  then have hd_in: "hd (split_on d cs) \<in> set (split_on d cs)" by simp
  have tl_in: "set (tl (split_on d cs)) \<subseteq> set (split_on d cs)"
    using ne by (cases "split_on d cs") auto
  show ?case
  proof (cases "c = d")
    case True
    with Cons show ?thesis by (auto simp: Let_def)
  next
    case False
    with Cons.prems have "item = c # hd (split_on d cs) \<or> item \<in> set (tl (split_on d cs))"
      by (auto simp: Let_def)
    then show ?thesis
      using Cons.IH hd_in tl_in by fastforce
  qed
qed

lemmas py_int_eval =
  py_int_def strip_def is_space_def is_digit_def digits_val_def digit_val_def

section \<open>\<^verbatim>\<open>_parse_dict_string\<close>\<close>

lemma parse_items_no_separator:
  "CHR ''='' \<notin> set item \<Longrightarrow> parse_items (item # items) key d = Inl ValueError"
  by (simp add: rsplit1_def)

lemma parse_items_skip:
  "CHR ''='' \<in> set item \<Longrightarrow> hd (rsplit1 CHR ''='' item) \<noteq> key
     \<Longrightarrow> parse_items (item # items) key d = parse_items items key d"
  by (simp add: rsplit1_def)

lemma parse_items_hit:
  "rsplit1 CHR ''='' item = [key, v]
     \<Longrightarrow> parse_items (item # items) key d =
           (case py_int v of Inr n \<Rightarrow> Inr (PInt n) | Inl _ \<Rightarrow> Inr (PStr v))"
  by simp

lemma parse_items_absent:
  "\<forall>item\<in>set items. CHR ''='' \<in> set item \<and> hd (rsplit1 CHR ''='' item) \<noteq> key
     \<Longrightarrow> parse_items items key d = Inr d"
proof (induction items)
  case Nil
  then show ?case by simp
next
  case (Cons item items)
  then have "parse_items (item # items) key d = parse_items items key d"
    by (intro parse_items_skip) simp_all
  with Cons show ?case by simp
qed

lemma parse_items_found:
  "\<forall>i\<in>set pre. CHR ''='' \<in> set i \<and> hd (rsplit1 CHR ''='' i) \<noteq> key
     \<Longrightarrow> rsplit1 CHR ''='' item = [key, v]
     \<Longrightarrow> parse_items (pre @ item # post) key d =
           (case py_int v of Inr n \<Rightarrow> Inr (PInt n) | Inl _ \<Rightarrow> Inr (PStr v))"
proof (induction pre)
  case Nil
  then show ?case by (simp only: append_Nil parse_items_hit)
next
  case (Cons i pre)
  then have "parse_items (i # (pre @ item # post)) key d = parse_items (pre @ item # post) key d"
    by (intro parse_items_skip) simp_all
  with Cons show ?case by simp
qed

lemma parse_malformed:
  assumes "CHR ''='' \<notin> set s"
  shows "parse_dict_string st (PStr s) key d =
           (d, log_exception st ''Cannot parse dictionary string: %s'' [ArgVal (PStr s)])"
proof -
  obtain item items where sp: "split_on CHR '','' s = item # items"
    using split_on_nonempty [of "CHR '',''" s] by (cases "split_on CHR '','' s") auto
  then have "item \<in> set (split_on CHR '','' s)" by simp
  then have "set item \<subseteq> set s" by (rule split_on_chars)
  with assms have "CHR ''='' \<notin> set item" by auto
  then have "parse_items (item # items) key d = Inl ValueError"
    by (rule parse_items_no_separator)
  with sp show ?thesis by (simp add: parse_dict_string_def)
qed

lemma parse_key_absent:
  assumes "\<forall>item\<in>set (split_on CHR '','' s).
             CHR ''='' \<in> set item \<and> hd (rsplit1 CHR ''='' item) \<noteq> key"
  shows "parse_dict_string st (PStr s) key d = (d, st)"
  using parse_items_absent [OF assms] by (simp add: parse_dict_string_def)

text \<open>
  C6, the claim as it stands: on a well-formed legacy string that lacks the requested
  key, \<^verbatim>\<open>_parse_dict_string\<close> returns -1 and logs a parse failure. It does
  return -1, but it logs nothing: \<^verbatim>\<open>"keys=3,expires=0"\<close> asked for
  \<^verbatim>\<open>avg_ttl\<close> leaves the loop by \<^verbatim>\<open>return default\<close>, outside the handler
  that logs, and the log of a fresh check object stays empty.
\<close>

theorem parse_absent_key_logs_nothing:
  "fst (parse_dict_string init_state (PStr ''keys=3,expires=0'') ''avg_ttl'' (PInt (- 1)))
     = PInt (- 1)
   \<and> logs (snd (parse_dict_string init_state (PStr ''keys=3,expires=0'') ''avg_ttl''
        (PInt (- 1)))) = []"
  by (simp add: parse_dict_string_def rsplit1_def init_state_def)

text \<open>
  C6, amended: \<^verbatim>\<open>_parse_dict_string\<close> on \<^verbatim>\<open>"keys=3,expires=0"\<close> returns 3 for
  \<^verbatim>\<open>keys\<close> and 0 for \<^verbatim>\<open>expires\<close>, logging nothing; on every string with no
  \<^verbatim>\<open>=\<close> in it, it returns the default and logs one parse failure that carries the
  string; on every string whose comma-separated items all hold a \<^verbatim>\<open>=\<close> and none
  of which has the requested key before its last \<^verbatim>\<open>=\<close>, it returns the default
  and leaves the check object, the log included, as it was.
\<close>

theorem parse_dict_string_results:
  "parse_dict_string st (PStr ''keys=3,expires=0'') ''keys'' (PInt (- 1)) = (PInt 3, st)
   \<and> parse_dict_string st (PStr ''keys=3,expires=0'') ''expires'' (PInt (- 1)) = (PInt 0, st)
   \<and> (CHR ''='' \<notin> set s \<longrightarrow>
        parse_dict_string st (PStr s) key d =
          (d, log_exception st ''Cannot parse dictionary string: %s'' [ArgVal (PStr s)]))
   \<and> ((\<forall>item\<in>set (split_on CHR '','' s').
          CHR ''='' \<in> set item \<and> hd (rsplit1 CHR ''='' item) \<noteq> key') \<longrightarrow>
        parse_dict_string st (PStr s') key' d = (d, st))"
proof -
  have keys: "parse_dict_string st (PStr ''keys=3,expires=0'') ''keys'' (PInt (- 1)) = (PInt 3, st)"
    by (simp add: parse_dict_string_def rsplit1_def py_int_eval)
  have expires:
    "parse_dict_string st (PStr ''keys=3,expires=0'') ''expires'' (PInt (- 1)) = (PInt 0, st)"
    by (simp add: parse_dict_string_def rsplit1_def py_int_eval)
  show ?thesis
    using keys expires parse_malformed [of s st key d] parse_key_absent [of s' key' st d]
    by blast
qed

theorem parse_dict_string_results_witness:
  "parse_dict_string init_state (PStr ''garbage'') ''keys'' (PInt (- 1)) =
     (PInt (- 1),
      log_exception init_state ''Cannot parse dictionary string: %s'' [ArgVal (PStr ''garbage'')])
   \<and> parse_dict_string init_state (PStr ''keys=3,expires=0'') ''avg_ttl'' (PInt (- 1)) =
       (PInt (- 1), init_state)
   \<and> parse_dict_string init_state (PStr ''keys=3,expires=0'') ''keys'' (PInt (- 1)) =
       (PInt 3, init_state)"
proof -
  have no_eq: "CHR ''='' \<notin> set ''garbage''" by simp
  have all_eq: "\<forall>item\<in>set (split_on CHR '','' ''keys=3,expires=0'').
      CHR ''='' \<in> set item \<and> hd (rsplit1 CHR ''='' item) \<noteq> ''avg_ttl''"
    by (simp add: rsplit1_def)
  show ?thesis
    using no_eq all_eq
      parse_dict_string_results [of init_state "''garbage''" "''keys''" "PInt (- 1)"
        "''keys=3,expires=0''" "''avg_ttl''"]
    by blast
qed

section \<open>The per-database subkeys\<close>

lemma parse_dict_string_metrics:
  "metrics (snd (parse_dict_string st x key d)) = metrics st"
  by (simp add: parse_dict_string_def log_exception_def split: sum.splits pyval.splits)

lemma save_subkey_metrics:
  "\<exists>v. metrics (save_subkey entry db_tags st subkey) =
         metrics st @ [Gauge (''redis.'' @ subkey) v db_tags]"
  using parse_dict_string_metrics [of st entry subkey "PInt (- 1)"]
  by (cases entry) (simp_all add: save_subkey_def gauge_def case_prod_beta)

lemma parse_legacy_found:
  assumes "split_on CHR '','' s = pre @ item # post"
      and "\<forall>i\<in>set pre. CHR ''='' \<in> set i \<and> hd (rsplit1 CHR ''='' i) \<noteq> subkey"
      and "rsplit1 CHR ''='' item = [subkey, v]"
      and "py_int v = Inl ValueError"
  shows "parse_dict_string st (PStr s) subkey d = (PStr v, st)"
  using parse_items_found [OF assms(2) assms(3), of post d] assms(1) assms(4)
  by (simp add: parse_dict_string_def)

lemma save_subkey_legacy:
  assumes "parse_dict_string st (PStr s) subkey (PInt (- 1)) = (v, st)"
  shows "save_subkey (PStr s) db_tags st subkey = gauge st (''redis.'' @ subkey) v db_tags"
  using assms by (simp add: save_subkey_def)

lemma save_db_entry_legacy:
  assumes "db_key_pattern_match key" and "map_of info key = Some (PStr s)"
  shows "save_db_entry fl info tags key st =
           (Some TypeError,
            save_subkey (PStr s) (tags @ [''redis_db:'' @ key])
              (save_subkey (PStr s) (tags @ [''redis_db:'' @ key]) st ''keys'') ''expires'')"
  using assms
  by (simp add: save_db_entry_def subkeys_def expires_ratio_def py_getitem_def Let_def)

text \<open>
  C9: when a legacy per-db string holds the requested subkey with a value that
  \<^verbatim>\<open>int\<close> rejects (the item is the first one with that key, and the items before
  it are well formed), \<^verbatim>\<open>_parse_dict_string\<close> returns that raw string, not the
  default -1, and logs nothing; the subkey step of \<^verbatim>\<open>_check_db\<close> hands the string
  to the sink as the value of the gauge \<^verbatim>\<open>redis.<subkey>\<close>; and so the samples of
  the loop body for a per-db field holding such a string contain that gauge, tagged
  with the base tags and \<^verbatim>\<open>redis_db:<field>\<close>.
\<close>

theorem legacy_raw_value_emitted:
  assumes "split_on CHR '','' s = pre @ item # post"
      and "\<forall>i\<in>set pre. CHR ''='' \<in> set i \<and> hd (rsplit1 CHR ''='' i) \<noteq> subkey"
      and "rsplit1 CHR ''='' item = [subkey, v]"
      and "py_int v = Inl ValueError"
  shows "parse_dict_string st (PStr s) subkey (PInt (- 1)) = (PStr v, st)
       \<and> save_subkey (PStr s) db_tags st subkey =
           gauge st (''redis.'' @ subkey) (PStr v) db_tags
       \<and> (subkey \<in> set subkeys \<and> db_key_pattern_match key \<and> map_of info key = Some (PStr s) \<longrightarrow>
            Gauge (''redis.'' @ subkey) (PStr v) (tags @ [''redis_db:'' @ key])
              \<in> set (emitted st (snd (save_db_entry fl info tags key st))))"
proof -
  let ?t = "tags @ [''redis_db:'' @ key]"
  have parsed: "parse_dict_string st0 (PStr s) subkey (PInt (- 1)) = (PStr v, st0)" for st0
    using assms by (rule parse_legacy_found)
  have sub: "save_subkey (PStr s) t st0 subkey = gauge st0 (''redis.'' @ subkey) (PStr v) t"
    for st0 t
    using parsed by (rule save_subkey_legacy)
  have loop: "Gauge (''redis.'' @ subkey) (PStr v) ?t
                \<in> set (emitted st (snd (save_db_entry fl info tags key st)))"
    if sk: "subkey \<in> set subkeys" and m: "db_key_pattern_match key"
      and i: "map_of info key = Some (PStr s)"
  proof -
    define st1 where "st1 = save_subkey (PStr s) ?t st ''keys''"
    define st2 where "st2 = save_subkey (PStr s) ?t st1 ''expires''"
    have res: "snd (save_db_entry fl info tags key st) = st2"
      using save_db_entry_legacy [OF m i] by (simp add: st1_def st2_def)
    obtain v1 where m1: "metrics st1 = metrics st @ [Gauge (''redis.'' @ ''keys'') v1 ?t]"
      unfolding st1_def using save_subkey_metrics by blast
    obtain v2 where m2: "metrics st2 = metrics st1 @ [Gauge (''redis.'' @ ''expires'') v2 ?t]"
      unfolding st2_def using save_subkey_metrics by blast
    from sk have "subkey = ''keys'' \<or> subkey = ''expires''"
      by (simp add: subkeys_def)
    then show ?thesis
    proof
      assume k: "subkey = ''keys''"
      have "metrics st1 = metrics st @ [Gauge (''redis.'' @ subkey) (PStr v) ?t]"
        unfolding st1_def using sub [of ?t st] k by (simp add: gauge_def)
      with m2 res show ?thesis by (simp add: emitted_def)
    next
      assume e: "subkey = ''expires''"
      have "metrics st2 = metrics st1 @ [Gauge (''redis.'' @ subkey) (PStr v) ?t]"
        unfolding st2_def using sub [of ?t st1] e by (simp add: gauge_def)
      with m1 res show ?thesis by (simp add: emitted_def)
    qed
  qed
  show ?thesis using parsed [of st] sub [of db_tags st] loop by blast
qed

theorem legacy_raw_value_emitted_witness:
  "py_int ''abc'' = Inl ValueError
   \<and> parse_dict_string init_state (PStr ''keys=abc,expires=0'') ''keys'' (PInt (- 1)) =
       (PStr ''abc'', init_state)
   \<and> save_subkey (PStr ''keys=abc,expires=0'') [''redis_db:db0''] init_state ''keys'' =
       gauge init_state ''redis.keys'' (PStr ''abc'') [''redis_db:db0'']
   \<and> Gauge ''redis.keys'' (PStr ''abc'') [''redis_host:h'', ''redis_db:db0'']
       \<in> set (emitted init_state
            (snd (save_db_entry (\<lambda>_. None) [(''db0'', PStr ''keys=abc,expires=0'')]
               [''redis_host:h''] ''db0'' init_state)))"
proof -
  have sp: "split_on CHR '','' ''keys=abc,expires=0'' = [] @ ''keys=abc'' # [''expires=0'']"
    by simp
  have pre: "\<forall>i\<in>set []. CHR ''='' \<in> set i \<and> hd (rsplit1 CHR ''='' i) \<noteq> ''keys''"
    by simp
  have it: "rsplit1 CHR ''='' ''keys=abc'' = [''keys'', ''abc'']"
    by (simp add: rsplit1_def)
  have nv: "py_int ''abc'' = Inl ValueError"
    by (simp add: py_int_eval)
  have sk: "''keys'' \<in> set subkeys" by (simp add: subkeys_def)
  have m: "db_key_pattern_match ''db0''" by (simp add: db_key_pattern_match_def is_digit_def)
  have i: "map_of [(''db0'', PStr ''keys=abc,expires=0'')] ''db0'' = Some (PStr ''keys=abc,expires=0'')"
    by simp
  show ?thesis
    using nv sk m i
      legacy_raw_value_emitted [OF sp pre it nv, of init_state "[''redis_db:db0'']" "''db0''"
        "[(''db0'', PStr ''keys=abc,expires=0'')]" "[''redis_host:h'']" "\<lambda>_. None"]
    by simp
qed

section \<open>The connection cache\<close>

text \<open>
  C8: \<^verbatim>\<open>_get_conn\<close>. A cached handle for (host, port, db) is returned and the check
  object is left as it was, so nothing is constructed. Without one, a password that
  is absent or empty gives a connection built without credentials, and a non-empty
  password one built with it when the client library accepts the keyword; the new
  handle is returned, cached under the key and is the one constructor call made. When
  the library does not accept the keyword, the call fails with the constructor's
  \<^verbatim>\<open>TypeError\<close>, re-raised after logging (the error the specification names
  ConfigurationError); the cache is then exactly the cache before the call, which held
  no entry for the key, and nothing was constructed.
\<close>

theorem get_conn_cache:
  "(connections st (host, port, db) = Some c \<longrightarrow>
      get_conn env st host port password db = (Inr c, st))
   \<and> (connections st (host, port, db) = None \<and> (password = None \<or> password = Some []) \<longrightarrow>
        get_conn env st host port password db =
          (Inr \<lparr>c_host = host, c_port = port, c_password = None, c_db = db\<rparr>,
           st\<lparr>connections := (connections st)((host, port, db) \<mapsto>
                  \<lparr>c_host = host, c_port = port, c_password = None, c_db = db\<rparr>),
               constructed := constructed st @
                  [\<lparr>c_host = host, c_port = port, c_password = None, c_db = db\<rparr>]\<rparr>))
   \<and> (connections st (host, port, db) = None \<and> password = Some pw \<and> pw \<noteq> []
        \<and> auth_supported env \<longrightarrow>
        get_conn env st host port password db =
          (Inr \<lparr>c_host = host, c_port = port, c_password = Some pw, c_db = db\<rparr>,
           st\<lparr>connections := (connections st)((host, port, db) \<mapsto>
                  \<lparr>c_host = host, c_port = port, c_password = Some pw, c_db = db\<rparr>),
               constructed := constructed st @
                  [\<lparr>c_host = host, c_port = port, c_password = Some pw, c_db = db\<rparr>]\<rparr>))
   \<and> (connections st (host, port, db) = None \<and> password = Some pw \<and> pw \<noteq> []
        \<and> \<not> auth_supported env \<longrightarrow>
        fst (get_conn env st host port password db) = Inl TypeError
        \<and> connections (snd (get_conn env st host port password db)) = connections st
        \<and> connections (snd (get_conn env st host port password db)) (host, port, db) = None
        \<and> constructed (snd (get_conn env st host port password db)) = constructed st)"
  by (auto simp: get_conn_def Let_def log_exception_def)

theorem get_conn_cache_witness:
  "get_conn (env_of False (Inr []) (\<lambda>_. Inr (PInt 0)))
      (init_state\<lparr>connections := [(''h'', 6379, 0) \<mapsto>
         \<lparr>c_host = ''h'', c_port = 6379, c_password = None, c_db = 0\<rparr>]\<rparr>)
      ''h'' 6379 (Some ''secret'') 0 =
     (Inr \<lparr>c_host = ''h'', c_port = 6379, c_password = None, c_db = 0\<rparr>,
      init_state\<lparr>connections := [(''h'', 6379, 0) \<mapsto>
         \<lparr>c_host = ''h'', c_port = 6379, c_password = None, c_db = 0\<rparr>]\<rparr>)
   \<and> fst (get_conn (env_of False (Inr []) (\<lambda>_. Inr (PInt 0))) init_state ''h'' 6379 (Some []) 0) =
       Inr \<lparr>c_host = ''h'', c_port = 6379, c_password = None, c_db = 0\<rparr>
   \<and> fst (get_conn (env_of True (Inr []) (\<lambda>_. Inr (PInt 0))) init_state ''h'' 6379
         (Some ''secret'') 0) =
       Inr \<lparr>c_host = ''h'', c_port = 6379, c_password = Some ''secret'', c_db = 0\<rparr>
   \<and> fst (get_conn (env_of False (Inr []) (\<lambda>_. Inr (PInt 0))) init_state ''h'' 6379
         (Some ''secret'') 0) = Inl TypeError
   \<and> connections (snd (get_conn (env_of False (Inr []) (\<lambda>_. Inr (PInt 0))) init_state ''h'' 6379
         (Some ''secret'') 0)) (''h'', 6379, 0) = None"
proof -
  let ?c = "\<lparr>c_host = ''h'', c_port = 6379, c_password = None, c_db = 0\<rparr>"
  let ?no = "env_of False (Inr []) (\<lambda>_. Inr (PInt 0))"
  let ?yes = "env_of True (Inr []) (\<lambda>_. Inr (PInt 0))"
  have hit: "connections (init_state\<lparr>connections := [(''h'', 6379, 0) \<mapsto> ?c]\<rparr>) (''h'', 6379, 0)
               = Some ?c"
    by simp
  have miss: "connections init_state (''h'', 6379, 0) = None"
    by (simp add: init_state_def)
  have sup: "auth_supported ?yes" and unsup: "\<not> auth_supported ?no"
    by (simp_all add: env_of_def)
  have pw: "''secret'' \<noteq> []" by simp
  show ?thesis
    using hit miss sup unsup pw
      get_conn_cache [of "init_state\<lparr>connections := [(''h'', 6379, 0) \<mapsto> ?c]\<rparr>" "''h''" 6379 0
        ?c ?no "Some ''secret''" "''secret''"]
      get_conn_cache [of init_state "''h''" 6379 0 ?c ?no "Some []" "''secret''"]
      get_conn_cache [of init_state "''h''" 6379 0 ?c ?yes "Some ''secret''" "''secret''"]
      get_conn_cache [of init_state "''h''" 6379 0 ?c ?no "Some ''secret''" "''secret''"]
    by simp
qed

section \<open>What a step may change\<close>

lemma keeps_refl: "keeps Q st st"
  by (simp add: keeps_def)

lemma keeps_trans: "keeps Q a b \<Longrightarrow> keeps Q b c \<Longrightarrow> keeps Q a c"
  by (auto simp: keeps_def)

lemma keeps_gauge: "Q (Gauge n v t) \<Longrightarrow> keeps Q st (gauge st n v t)"
  by (simp add: keeps_def gauge_def)

lemma keeps_rate: "Q (Rate n v t) \<Longrightarrow> keeps Q st (rate st n v t)"
  by (simp add: keeps_def rate_def)

lemma keeps_log_error: "keeps Q st (log_error st fmt args)"
  by (simp add: keeps_def log_error_def)

lemma keeps_log_exception: "keeps Q st (log_exception st fmt args)"
  by (simp add: keeps_def log_exception_def)

lemma keeps_for_each:
  assumes "\<And>x s r s'. x \<in> set xs \<Longrightarrow> body x s = (r, s') \<Longrightarrow> keeps Q s s'"
      and "for_each body xs st = (r, st')"
  shows "keeps Q st st'"
  using assms
proof (induction xs arbitrary: st)
  case Nil
  then show ?case by (simp add: keeps_refl)
next
  case (Cons x xs)
  obtain r1 s1 where b: "body x st = (r1, s1)" by (cases "body x st")
  have k1: "keeps Q st s1" using Cons.prems(1) [of x st r1 s1] b by simp
  show ?case
  proof (cases r1)
    case None
    with b Cons.prems(2) have "for_each body xs s1 = (r, st')" by simp
    moreover have "keeps Q s s'" if "y \<in> set xs" and "body y s = (r', s')" for y s r' s'
      using Cons.prems(1) [of y s r' s'] that by simp
    ultimately have "keeps Q s1 st'"
      using Cons.IH [of s1] by blast
    with k1 show ?thesis by (rule keeps_trans)
  next
    case (Some e)
    with b Cons.prems(2) have "st' = s1" by simp
    with k1 show ?thesis by simp
  qed
qed

lemma keeps_foldl:
  assumes "\<And>x s. x \<in> set xs \<Longrightarrow> keeps Q s (f s x)"
  shows "keeps Q st (foldl f st xs)"
  using assms
proof (induction xs arbitrary: st)
  case Nil
  then show ?case by (simp add: keeps_refl)
next
  case (Cons x xs)
  have "keeps Q st (f st x)" using Cons.prems by simp
  moreover have "keeps Q (f st x) (foldl f (f st x) xs)"
    using Cons.IH Cons.prems by simp
  ultimately show ?case using keeps_trans by force
qed

lemma keeps_parse: "keeps Q st (snd (parse_dict_string st x key d))"
  by (simp add: parse_dict_string_def keeps_refl keeps_log_exception split: sum.splits pyval.splits)

lemma keeps_save_subkey:
  assumes "\<And>v. Q (Gauge (''redis.'' @ subkey) v t)"
  shows "keeps Q st (save_subkey entry t st subkey)"
proof -
  obtain v s1 where *: "save_subkey entry t st subkey = gauge s1 (''redis.'' @ subkey) v t"
    and k: "keeps Q st s1"
    using keeps_parse [of Q st entry subkey "PInt (- 1)"] keeps_refl [of Q st]
    by (cases entry) (auto simp: save_subkey_def case_prod_beta)
  have "keeps Q s1 (gauge s1 (''redis.'' @ subkey) v t)"
    by (rule keeps_gauge) (rule assms)
  with k show ?thesis unfolding * by (rule keeps_trans)
qed

lemma keeps_save_db_entry:
  assumes "\<And>v t. Q (Gauge ''redis.keys'' v t)"
      and "\<And>v t. Q (Gauge ''redis.expires'' v t)"
      and "\<And>v t. Q (Gauge ''redis.expires_ratio'' v t)"
      and "save_db_entry fl info tags key st = (r, st')"
  shows "keeps Q st st'"
proof (cases "db_key_pattern_match key")
  case False
  with assms(4) show ?thesis by (simp add: save_db_entry_def keeps_refl)
next
  case True
  show ?thesis
  proof (cases "map_of info key")
    case None
    with True assms(4) show ?thesis by (simp add: save_db_entry_def keeps_refl)
  next
    case (Some entry)
    let ?t = "tags @ [''redis_db:'' @ key]"
    let ?s1 = "foldl (save_subkey entry ?t) st subkeys"
    have k1: "keeps Q st ?s1"
      by (rule keeps_foldl) (use assms(1,2) in \<open>auto simp: subkeys_def intro!: keeps_save_subkey\<close>)
    have "st' = ?s1 \<or> (\<exists>q. st' = gauge ?s1 ''redis.expires_ratio'' (PFloat q) ?t)"
      using True Some assms(4)
      by (auto simp: save_db_entry_def Let_def split: sum.splits exn.splits)
    moreover have "keeps Q ?s1 (gauge ?s1 ''redis.expires_ratio'' (PFloat q) ?t)" for q
      by (rule keeps_gauge) (rule assms(3))
    ultimately show ?thesis
      using k1 keeps_trans by blast
  qed
qed

lemma keeps_save_db_stats:
  assumes "\<And>v t. Q (Gauge ''redis.keys'' v t)"
      and "\<And>v t. Q (Gauge ''redis.expires'' v t)"
      and "\<And>v t. Q (Gauge ''redis.expires_ratio'' v t)"
      and "save_db_stats fl info tags st = (r, st')"
  shows "keeps Q st st'"
proof (rule keeps_for_each)
  show "for_each (save_db_entry fl info tags) (map fst info) st = (r, st')"
    using assms(4) by (simp add: save_db_stats_def)
next
  fix x s r' s'
  assume "save_db_entry fl info tags x s = (r', s')"
  then show "keeps Q s s'"
    by (rule keeps_save_db_entry [OF assms(1) assms(2) assms(3)])
qed

lemma keeps_save_gauges:
  assumes "\<And>k m v t. (k, m) \<in> set GAUGE_KEYS \<Longrightarrow> Q (Gauge m v t)"
  shows "keeps Q st (save_gauges info tags st)"
  unfolding save_gauges_def
proof (rule keeps_foldl)
  fix x :: "string \<times> string" and s
  assume x: "x \<in> set GAUGE_KEYS"
  obtain k m where km: "x = (k, m)" by (cases x)
  have "keeps Q s (gauge s m v tags)" for v
    by (rule keeps_gauge) (use x km assms in blast)
  then show "keeps Q s
      (case x of (k, m) \<Rightarrow> (case map_of info k of Some v \<Rightarrow> gauge s m v tags | None \<Rightarrow> s))"
    by (simp add: km keeps_refl split: option.splits)
qed

lemma keeps_save_rates:
  assumes "\<And>k m v t. (k, m) \<in> set RATE_KEYS \<Longrightarrow> Q (Rate m v t)"
  shows "keeps Q st (save_rates info tags st)"
  unfolding save_rates_def
proof (rule keeps_foldl)
  fix x :: "string \<times> string" and s
  assume x: "x \<in> set RATE_KEYS"
  obtain k m where km: "x = (k, m)" by (cases x)
  have "keeps Q s (rate s m v tags)" for v
    by (rule keeps_rate) (use x km assms in blast)
  then show "keeps Q s
      (case x of (k, m) \<Rightarrow> (case map_of info k of Some v \<Rightarrow> rate s m v tags | None \<Rightarrow> s))"
    by (simp add: km keeps_refl split: option.splits)
qed

lemma calc_ratio_cases:
  assumes "calc_ratio fl info tags (name, f0, f1) st = (r, st')"
  shows "st' = st \<or> (\<exists>q. r = None \<and> st' = gauge st (''redis.'' @ name) (PFloat q) tags)"
  using assms
  by (auto simp: calc_ratio_def split: option.splits if_splits sum.splits)

lemma keeps_calc_ratios:
  assumes "\<And>v t. Q (Gauge ''redis.hit_ratio'' v t)"
      and "calc_ratios fl info tags st = (r, st')"
  shows "keeps Q st st'"
proof (rule keeps_for_each)
  show "for_each (calc_ratio fl info tags) RATIO_KEYS st = (r, st')"
    using assms(2) by (simp add: calc_ratios_def)
next
  fix x s r' s'
  assume x: "x \<in> set RATIO_KEYS" and c: "calc_ratio fl info tags x s = (r', s')"
  from x have "x = (''hit_ratio'', ''keyspace_hits'', ''keyspace_misses'')"
    by (simp add: RATIO_KEYS_def)
  with c have "s' = s \<or> (\<exists>q. s' = gauge s ''redis.hit_ratio'' (PFloat q) tags)"
    using calc_ratio_cases [of fl info tags "''hit_ratio''" "''keyspace_hits''" "''keyspace_misses''" s r' s']
    by auto
  moreover have "keeps Q s (gauge s ''redis.hit_ratio'' (PFloat q) tags)" for q
    by (rule keeps_gauge) (rule assms(1))
  ultimately show "keeps Q s s'"
    using keeps_refl by blast
qed

lemma keeps_list_length:
  assumes "\<And>name v t. Q (Gauge (''redis.llen.'' @ name) v t)"
      and "list_length llen info tags name st = (r, st')"
  shows "keeps Q st st'"
proof -
  have "st' = st \<or> (\<exists>v. st' = gauge st (''redis.llen.'' @ name) v tags)
        \<or> (\<exists>fmt args. st' = log_error st fmt args)"
    using assms(2)
    by (auto simp: list_length_def split: sum.splits exn.splits option.splits)
  moreover have "keeps Q st (gauge st (''redis.llen.'' @ name) v tags)" for v
    by (rule keeps_gauge) (rule assms(1))
  ultimately show ?thesis
    using keeps_refl keeps_log_error by blast
qed

lemma keeps_list_lengths_step:
  assumes "\<And>name v t. Q (Gauge (''redis.llen.'' @ name) v t)"
      and "list_lengths_step llen info tags list_lengths st = (r, st')"
  shows "keeps Q st st'"
proof (rule keeps_for_each)
  show "for_each (list_length llen info tags) list_lengths st = (r, st')"
    using assms(2) by (simp add: list_lengths_step_def)
next
  fix x s r' s'
  assume "list_length llen info tags x s = (r', s')"
  then show "keeps Q s s'"
    using assms(1) by (rule keeps_list_length [rotated])
qed

text \<open>The names a step before the ratios can give a sample.\<close>

lemma keeps_before_ratios:
  assumes n: "n \<notin> set [''redis.keys'', ''redis.expires'', ''redis.expires_ratio'']"
      and g: "n \<notin> snd ` set GAUGE_KEYS" and rt: "n \<notin> snd ` set RATE_KEYS"
      and run: "save_db_stats fl info tags st = (r, st1)"
  shows "keeps (\<lambda>s. sample_name s \<noteq> n) st st1"
    and "keeps (\<lambda>s. sample_name s \<noteq> n) st1 (save_rates info tags (save_gauges info tags st1))"
proof -
  show "keeps (\<lambda>s. sample_name s \<noteq> n) st st1"
    using n by (intro keeps_save_db_stats [OF _ _ _ run]) (auto simp: sample_name_def)
  have "keeps (\<lambda>s. sample_name s \<noteq> n) st1 (save_gauges info tags st1)"
    using g by (intro keeps_save_gauges) (force simp: sample_name_def)
  moreover have "keeps (\<lambda>s. sample_name s \<noteq> n) (save_gauges info tags st1)
                   (save_rates info tags (save_gauges info tags st1))"
    using rt by (intro keeps_save_rates) (force simp: sample_name_def)
  ultimately show "keeps (\<lambda>s. sample_name s \<noteq> n) st1
                     (save_rates info tags (save_gauges info tags st1))"
    by (rule keeps_trans)
qed

lemma emit_metrics_cases:
  assumes "emit_metrics env info tags ll st = (r, st')"
  obtains
    (db) e where "save_db_stats (float_of_str env) info tags st = (Some e, st')" and "r = Some e"
  | (ratio) st1 e where "save_db_stats (float_of_str env) info tags st = (None, st1)"
      and "calc_ratios (float_of_str env) info tags
             (save_rates info tags (save_gauges info tags st1)) = (Some e, st')"
      and "r = Some e"
  | (llen) st1 st3 where "save_db_stats (float_of_str env) info tags st = (None, st1)"
      and "calc_ratios (float_of_str env) info tags
             (save_rates info tags (save_gauges info tags st1)) = (None, st3)"
      and "list_lengths_step (llen_reply env) info tags ll st3 = (r, st')"
  using assms
  by (auto simp: emit_metrics_def and_then_def split: prod.splits option.splits)

lemma keeps_emit_metrics_but_ratios:
  assumes n: "n \<notin> set [''redis.keys'', ''redis.expires'', ''redis.expires_ratio'']"
      and g: "n \<notin> snd ` set GAUGE_KEYS" and rt: "n \<notin> snd ` set RATE_KEYS"
      and cr: "\<And>s r s'. calc_ratios (float_of_str env) info tags s = (r, s')
                 \<Longrightarrow> keeps (\<lambda>s. sample_name s \<noteq> n) s s'"
      and l: "\<And>name. ''redis.llen.'' @ name \<noteq> n"
      and run: "emit_metrics env info tags ll st = (r, st')"
  shows "keeps (\<lambda>s. sample_name s \<noteq> n) st st'"
proof -
  let ?Q = "\<lambda>s. sample_name s \<noteq> n"
  have lq: "?Q (Gauge (''redis.llen.'' @ name) v t)" for name v t
    using l [of name] by (simp add: sample_name_def)
  from run show ?thesis
  proof (cases rule: emit_metrics_cases)
    case (db e)
    then show ?thesis using keeps_before_ratios(1) [OF n g rt] by blast
  next
    case (ratio st1 e)
    have "keeps ?Q st st1" using keeps_before_ratios(1) [OF n g rt ratio(1)] .
    moreover have "keeps ?Q st1 (save_rates info tags (save_gauges info tags st1))"
      using keeps_before_ratios(2) [OF n g rt ratio(1)] .
    moreover have "keeps ?Q (save_rates info tags (save_gauges info tags st1)) st'"
      using ratio(2) by (rule cr)
    ultimately show ?thesis using keeps_trans by blast
  next
    case (llen st1 st3)
    have "keeps ?Q st st1" using keeps_before_ratios(1) [OF n g rt llen(1)] .
    moreover have "keeps ?Q st1 (save_rates info tags (save_gauges info tags st1))"
      using keeps_before_ratios(2) [OF n g rt llen(1)] .
    moreover have "keeps ?Q (save_rates info tags (save_gauges info tags st1)) st3"
      using llen(2) by (rule cr)
    moreover have "keeps ?Q st3 st'"
      by (rule keeps_list_lengths_step [where Q = ?Q, OF _ llen(3)]) (rule lq)
    ultimately show ?thesis using keeps_trans by blast
  qed
qed

lemma keeps_emit_metrics:
  assumes n: "n \<notin> set [''redis.keys'', ''redis.expires'', ''redis.expires_ratio'']"
      and g: "n \<notin> snd ` set GAUGE_KEYS" and rt: "n \<notin> snd ` set RATE_KEYS"
      and h: "n \<noteq> ''redis.hit_ratio''"
      and l: "\<And>name. ''redis.llen.'' @ name \<noteq> n"
      and run: "emit_metrics env info tags ll st = (r, st')"
  shows "keeps (\<lambda>s. sample_name s \<noteq> n) st st'"
proof (rule keeps_emit_metrics_but_ratios [OF n g rt _ l run])
  fix s r' s'
  assume "calc_ratios (float_of_str env) info tags s = (r', s')"
  then show "keeps (\<lambda>s. sample_name s \<noteq> n) s s'"
    by (rule keeps_calc_ratios [rotated]) (use h in \<open>simp add: sample_name_def\<close>)
qed

lemma keeps_get_conn:
  "get_conn env st host port password db = (x, st0) \<Longrightarrow> keeps Q st st0"
  by (auto simp: get_conn_def keeps_def log_exception_def Let_def split: option.splits if_splits)

lemma check_db_cases:
  assumes "check_db env st host port password db ll ct = (r, st')"
      and "info_reply env = Inr info"
  obtains
    (conn) e where "get_conn env st host port password db = (Inl e, st')" and "r = Some e"
  | (run) c st0 where "get_conn env st host port password db = (Inr c, st0)"
      and "extract_and_emit env info (mk_tags host port ct) ll
             (gauge st0 ''redis.info.latency_ms''
                (PFloat (py_round2 ((time_end env - time_start env) * 1000)))
                (mk_tags host port ct)) = (r, st')"
  using assms
  by (auto simp: check_db_def Let_def split: prod.splits sum.splits)

text \<open>A run of \<^verbatim>\<open>_check_db\<close> that got its snapshot and raised nothing reached the
  command count, and until then changed no stored count and emitted only samples with
  other names than \<open>n\<close>, for any \<open>n\<close> that is not the name of an earlier gauge.\<close>

lemma check_db_reaches_commands:
  assumes run: "check_db env st host port password db ll ct = (None, st')"
      and info: "info_reply env = Inr info"
      and n: "n \<notin> set [''redis.info.latency_ms'', ''redis.keys'', ''redis.expires'',
                ''redis.expires_ratio'', ''redis.hit_ratio'']"
      and g: "n \<notin> snd ` set GAUGE_KEYS" and rt: "n \<notin> snd ` set RATE_KEYS"
      and l: "\<And>name. ''redis.llen.'' @ name \<noteq> n"
  obtains st4 where "keeps (\<lambda>s. sample_name s \<noteq> n) st st4"
      and "save_commands info (mk_tags host port ct) st4 = (None, st')"
proof -
  let ?Q = "\<lambda>s. sample_name s \<noteq> n"
  let ?tags = "mk_tags host port ct"
  from run info show ?thesis
  proof (cases rule: check_db_cases)
    case (conn e)
    then show ?thesis by simp
  next
    case (run c st0)
    let ?st1 = "gauge st0 ''redis.info.latency_ms''
                  (PFloat (py_round2 ((time_end env - time_start env) * 1000))) ?tags"
    from run(2) obtain st4 where em: "emit_metrics env info ?tags ll ?st1 = (None, st4)"
      and sc: "save_commands info ?tags st4 = (None, st')"
      by (auto simp: extract_and_emit_def and_then_def split: prod.splits option.splits)
    have "keeps ?Q st st0" using run(1) by (rule keeps_get_conn)
    moreover have "keeps ?Q st0 ?st1"
      using n by (intro keeps_gauge) (auto simp: sample_name_def)
    moreover have "keeps ?Q ?st1 st4"
      using n g rt l em by (intro keeps_emit_metrics [where env = env and r = None]) auto
    ultimately have "keeps ?Q st st4" using keeps_trans by blast
    then show ?thesis using sc by (rule that)
  qed
qed

lemma filter_none: "list_all (\<lambda>s. sample_name s \<noteq> n) xs \<Longrightarrow> filter (\<lambda>s. sample_name s = n) xs = []"
  by (induction xs) auto

section \<open>Worked polls\<close>

lemmas check_db_eval =
  check_db_def get_conn_def extract_and_emit_def emit_metrics_def and_then_def
  save_db_stats_def save_db_entry_def save_subkey_def expires_ratio_def py_getitem_def
  py_float_def py_fdiv_def save_gauges_def save_rates_def GAUGE_KEYS_def RATE_KEYS_def
  RATIO_KEYS_def calc_ratios_def calc_ratio_def list_lengths_step_def list_length_def
  leftover_key_def save_commands_def gauge_def rate_def log_error_def log_exception_def
  subkeys_def db_key_pattern_match_def is_digit_def init_state_def Let_def
  parse_dict_string_def rsplit1_def env_of_def

lemma sample_name_simps [simp]:
  "sample_name (Gauge n v t) = n" "sample_name (Rate n v t) = n"
  by (simp_all add: sample_name_def)

lemma py_round2_of_int: "py_round2 (of_int i) = of_int i"
proof (cases "0 \<le> i")
  case True
  have "\<lfloor>rat_of_int i * 100 + 1 / 2\<rfloor> = i * 100"
    by (rule floor_unique) simp_all
  with True show ?thesis by (simp add: py_round2_def)
next
  case False
  have down: "\<lfloor>- rat_of_int i * 100 + 1 / 2\<rfloor> = - i * 100"
    by (rule floor_unique) simp_all
  from False have "\<not> 0 \<le> rat_of_int i" by simp
  then have "py_round2 (of_int i) = - (of_int \<lfloor>- rat_of_int i * 100 + 1 / 2\<rfloor> / 100)"
    by (simp only: py_round2_def if_False)
  also have "\<dots> = of_int i"
    by (simp only: down)
  finally show ?thesis .
qed

lemma py_round2_numeral [simp]: "py_round2 (numeral k) = numeral k" "py_round2 0 = 0"
  using py_round2_of_int [of "numeral k"] py_round2_of_int [of 0] by simp_all

lemma poll_first:
  "poll init_state n =
     (None,
      \<lparr>previous_total_commands = [mk_tags ''localhost'' 6379 [] \<mapsto> PInt (n - 1)],
       connections = [(''localhost'', 6379, 0) \<mapsto>
          \<lparr>c_host = ''localhost'', c_port = 6379, c_password = None, c_db = 0\<rparr>],
       metrics =
         [Gauge ''redis.info.latency_ms'' (PFloat 0) (mk_tags ''localhost'' 6379 []),
          Gauge ''redis.stats.keyspace_hits'' (PInt 80) (mk_tags ''localhost'' 6379 []),
          Gauge ''redis.stats.keyspace_misses'' (PInt 20) (mk_tags ''localhost'' 6379 []),
          Gauge ''redis.hit_ratio'' (PFloat 400) (mk_tags ''localhost'' 6379 [])],
       logs = [],
       constructed = [\<lparr>c_host = ''localhost'', c_port = 6379, c_password = None, c_db = 0\<rparr>]\<rparr>)"
  by (simp add: poll_def poll_info_def check_db_eval)


lemma poll_second:
  "poll (snd (poll init_state a)) b =
     (None,
      \<lparr>previous_total_commands = [mk_tags ''localhost'' 6379 [] \<mapsto> PInt (b - 1)],
       connections = [(''localhost'', 6379, 0) \<mapsto>
          \<lparr>c_host = ''localhost'', c_port = 6379, c_password = None, c_db = 0\<rparr>],
       metrics =
         [Gauge ''redis.info.latency_ms'' (PFloat 0) (mk_tags ''localhost'' 6379 []),
          Gauge ''redis.stats.keyspace_hits'' (PInt 80) (mk_tags ''localhost'' 6379 []),
          Gauge ''redis.stats.keyspace_misses'' (PInt 20) (mk_tags ''localhost'' 6379 []),
          Gauge ''redis.hit_ratio'' (PFloat 400) (mk_tags ''localhost'' 6379 []),
          Gauge ''redis.info.latency_ms'' (PFloat 0) (mk_tags ''localhost'' 6379 []),
          Gauge ''redis.stats.keyspace_hits'' (PInt 80) (mk_tags ''localhost'' 6379 []),
          Gauge ''redis.stats.keyspace_misses'' (PInt 20) (mk_tags ''localhost'' 6379 []),
          Gauge ''redis.hit_ratio'' (PFloat 400) (mk_tags ''localhost'' 6379 []),
          Gauge ''redis.net.commands'' (PInt (b - a)) (mk_tags ''localhost'' 6379 [])],
       logs = [],
       constructed = [\<lparr>c_host = ''localhost'', c_port = 6379, c_password = None, c_db = 0\<rparr>]\<rparr>)"
  unfolding poll_first snd_conv
  by (simp add: poll_def poll_info_def check_db_eval)


section \<open>The command count\<close>

lemma command_step:
  assumes run: "check_db env st host port password db list_lengths custom_tags = (None, st')"
      and info: "info_reply env = Inr info"
      and total: "map_of info ''total_commands_processed'' = Some (PInt n)"
  shows "previous_total_commands st' =
           (previous_total_commands st)(mk_tags host port custom_tags \<mapsto> PInt (n - 1))"
    and "previous_total_commands st (mk_tags host port custom_tags) = None \<Longrightarrow>
           filter (\<lambda>s. sample_name s = ''redis.net.commands'') (emitted st st') = []"
    and "previous_total_commands st (mk_tags host port custom_tags) = Some (PInt p) \<Longrightarrow>
           filter (\<lambda>s. sample_name s = ''redis.net.commands'') (emitted st st') =
             [Gauge ''redis.net.commands'' (PInt (n - 1 - p)) (mk_tags host port custom_tags)]"
proof -
  let ?tags = "mk_tags host port custom_tags"
  let ?Q = "\<lambda>s. sample_name s \<noteq> ''redis.net.commands''"
  let ?cmd = "\<lambda>s. sample_name s = ''redis.net.commands''"
  have g: "''redis.net.commands'' \<notin> snd ` set GAUGE_KEYS" by (simp add: GAUGE_KEYS_def)
  have rt: "''redis.net.commands'' \<notin> snd ` set RATE_KEYS" by (simp add: RATE_KEYS_def)
  have nn: "''redis.net.commands'' \<notin> set [''redis.info.latency_ms'', ''redis.keys'',
      ''redis.expires'', ''redis.expires_ratio'', ''redis.hit_ratio'']"
    by simp
  have l: "''redis.llen.'' @ name \<noteq> ''redis.net.commands''" for name
    by simp
  obtain st4 where k: "keeps ?Q st st4" and sc: "save_commands info ?tags st4 = (None, st')"
    by (rule check_db_reaches_commands [OF run info nn g rt l])
  from k have prev4: "previous_total_commands st4 = previous_total_commands st"
    by (simp add: keeps_def)
  from k obtain new where m4: "metrics st4 = metrics st @ new" and q4: "list_all ?Q new"
    by (auto simp: keeps_def)
  have none4: "filter ?cmd new = []"
    using q4 by (rule filter_none)
  have all: "previous_total_commands st' = (previous_total_commands st)(?tags \<mapsto> PInt (n - 1))
      \<and> (previous_total_commands st ?tags = None \<longrightarrow> filter ?cmd (emitted st st') = [])
      \<and> (previous_total_commands st ?tags = Some (PInt p) \<longrightarrow>
            filter ?cmd (emitted st st') = [Gauge ''redis.net.commands'' (PInt (n - 1 - p)) ?tags])"
  proof (cases "previous_total_commands st ?tags")
    case None
    with sc total prev4 have st': "st' = st4\<lparr>previous_total_commands :=
        (previous_total_commands st4)(?tags \<mapsto> PInt (n - 1))\<rparr>"
      by (simp add: save_commands_def)
    have "emitted st st' = new"
      by (simp add: st' emitted_def m4)
    with none4 None st' prev4 show ?thesis by simp
  next
    case (Some prev)
    with sc total prev4 obtain count where c: "py_sub (PInt (n - 1)) prev = Inr count"
      and st': "st' = (gauge st4 ''redis.net.commands'' count ?tags)\<lparr>previous_total_commands :=
        (previous_total_commands st4)(?tags \<mapsto> PInt (n - 1))\<rparr>"
      by (auto simp: save_commands_def gauge_def split: sum.splits)
    have e: "emitted st st' = new @ [Gauge ''redis.net.commands'' count ?tags]"
      by (simp add: st' emitted_def gauge_def m4)
    have f: "filter ?cmd (emitted st st') = [Gauge ''redis.net.commands'' count ?tags]"
      by (simp add: e none4)
    have cnt: "count = PInt (n - 1 - p)" if "prev = PInt p"
      using c that by simp
    show ?thesis
      using Some st' prev4 f cnt by (auto simp: gauge_def)
  qed
  from all show "previous_total_commands st' =
      (previous_total_commands st)(?tags \<mapsto> PInt (n - 1))" by blast
  from all show "previous_total_commands st ?tags = None \<Longrightarrow> filter ?cmd (emitted st st') = []"
    by blast
  from all show "previous_total_commands st ?tags = Some (PInt p) \<Longrightarrow>
      filter ?cmd (emitted st st') = [Gauge ''redis.net.commands'' (PInt (n - 1 - p)) ?tags]"
    by blast
qed

text \<open>
  C2: the command-rate delta, per tag identity (the sorted tag list of the invocation,
  \<open>mk_tags host port custom_tags\<close>). For every invocation of \<^verbatim>\<open>_check_db\<close> that
  completes, on a snapshot whose \<^verbatim>\<open>total_commands_processed\<close> is the integer
  \<open>n\<close>: the count stored for the tag identity afterwards is \<open>n - 1\<close>, whether or not
  one was stored before, and the counts of all other tag identities are unchanged;
  when none was stored before (the first invocation), no \<^verbatim>\<open>redis.net.commands\<close>
  sample is emitted; when \<open>p\<close> was stored, exactly one is emitted, a gauge of
  \<open>(n - 1) - p\<close> with the invocation's tags. In particular a stored baseline and
  \<open>n = baseline + 50 + 1\<close> give a gauge of 50.
\<close>

theorem command_delta:
  assumes run: "check_db env st host port password db list_lengths custom_tags = (None, st')"
      and info: "info_reply env = Inr info"
      and total: "map_of info ''total_commands_processed'' = Some (PInt n)"
  shows "previous_total_commands st' (mk_tags host port custom_tags) = Some (PInt (n - 1))
       \<and> (\<forall>t. t \<noteq> mk_tags host port custom_tags \<longrightarrow>
              previous_total_commands st' t = previous_total_commands st t)
       \<and> (previous_total_commands st (mk_tags host port custom_tags) = None \<longrightarrow>
              filter (\<lambda>s. sample_name s = ''redis.net.commands'') (emitted st st') = [])
       \<and> (\<forall>p. previous_total_commands st (mk_tags host port custom_tags) = Some (PInt p) \<longrightarrow>
              filter (\<lambda>s. sample_name s = ''redis.net.commands'') (emitted st st') =
                [Gauge ''redis.net.commands'' (PInt (n - 1 - p)) (mk_tags host port custom_tags)])
       \<and> (\<forall>baseline. previous_total_commands st (mk_tags host port custom_tags) =
                Some (PInt baseline) \<and> n = baseline + 50 + 1 \<longrightarrow>
              Gauge ''redis.net.commands'' (PInt 50) (mk_tags host port custom_tags)
                \<in> set (emitted st st'))"
proof -
  let ?tags = "mk_tags host port custom_tags"
  let ?cmd = "\<lambda>s. sample_name s = ''redis.net.commands''"
  note step = command_step [OF run info total]
  have stored: "previous_total_commands st' ?tags = Some (PInt (n - 1))"
    and others: "\<forall>t. t \<noteq> ?tags \<longrightarrow> previous_total_commands st' t = previous_total_commands st t"
    by (simp_all add: step(1))
  have fifty: "Gauge ''redis.net.commands'' (PInt 50) ?tags \<in> set (emitted st st')"
    if "previous_total_commands st ?tags = Some (PInt baseline)" and "n = baseline + 50 + 1"
    for baseline
  proof -
    have "filter ?cmd (emitted st st') = [Gauge ''redis.net.commands'' (PInt 50) ?tags]"
      using step(3) [OF that(1)] that(2) by simp
    then have "Gauge ''redis.net.commands'' (PInt 50) ?tags \<in> set (filter ?cmd (emitted st st'))"
      by simp
    then show ?thesis by simp
  qed
  show ?thesis
    using stored others step(2) step(3) fifty by blast
qed

theorem command_delta_witness:
  "fst (poll init_state 101) = None
   \<and> previous_total_commands (snd (poll init_state 101)) (mk_tags ''localhost'' 6379 []) =
       Some (PInt 100)
   \<and> filter (\<lambda>s. sample_name s = ''redis.net.commands'')
       (emitted init_state (snd (poll init_state 101))) = []
   \<and> fst (poll (snd (poll init_state 101)) 151) = None
   \<and> Gauge ''redis.net.commands'' (PInt 50) (mk_tags ''localhost'' 6379 [])
       \<in> set (emitted (snd (poll init_state 101)) (snd (poll (snd (poll init_state 101)) 151)))
   \<and> previous_total_commands (snd (poll (snd (poll init_state 101)) 151))
       (mk_tags ''localhost'' 6379 []) = Some (PInt 150)"
proof -
  let ?env = "\<lambda>n. env_of True (Inr (poll_info n)) (\<lambda>_. Inr (PInt 0))"
  let ?s1 = "snd (poll init_state 101)"
  let ?s2 = "snd (poll ?s1 151)"
  have r1: "check_db (?env 101) init_state ''localhost'' 6379 None 0 [] [] = (None, ?s1)"
    using poll_first [of 101] by (simp add: poll_def)
  have r2: "check_db (?env 151) ?s1 ''localhost'' 6379 None 0 [] [] = (None, ?s2)"
    using poll_second [of 101 151] by (simp add: poll_def)
  have i: "info_reply (?env n) = Inr (poll_info n)" for n
    by (simp add: env_of_def)
  have t: "map_of (poll_info n) ''total_commands_processed'' = Some (PInt n)" for n
    by (simp add: poll_info_def)
  have p0: "previous_total_commands init_state (mk_tags ''localhost'' 6379 []) = None"
    by (simp add: init_state_def)
  have p1: "previous_total_commands ?s1 (mk_tags ''localhost'' 6379 []) = Some (PInt 100)"
    by (simp add: poll_first)
  have f1: "fst (poll init_state 101) = None"
    by (simp add: poll_first)
  have f2: "fst (poll ?s1 151) = None"
    by (simp add: poll_second)
  show ?thesis
    using command_delta [OF r1 i t] command_delta [OF r2 i t] p0 p1 f1 f2
    by simp
qed

text \<open>The tag identity depends on the set of custom tags only, not on their order or
  repetition.\<close>

lemma mk_tags_set:
  "set custom_tags' = set custom_tags \<Longrightarrow> mk_tags host port custom_tags' = mk_tags host port custom_tags"
proof -
  assume s: "set custom_tags' = set custom_tags"
  have "mk_tags host port ct =
          sorted_list_of_set (set (ct @ [''redis_host:'' @ host, ''redis_port:'' @ str_int port]))"
    for ct
    unfolding mk_tags_def by (simp only: sorted_list_of_set_sort_remdups)
  with s show ?thesis by simp
qed

text \<open>
  C10: two consecutive invocations of \<^verbatim>\<open>_check_db\<close> that both complete, the second
  starting from the state the first left, under the same sorted tag list, on snapshots
  whose \<^verbatim>\<open>total_commands_processed\<close> are the integers \<open>n1\<close> and then \<open>n2\<close>: the
  second emits exactly one \<^verbatim>\<open>redis.net.commands\<close> sample, and its value is
  \<open>n2 - n1\<close>, the difference of the two raw counters. The 1 subtracted in each
  invocation cancels, so the \<^verbatim>\<open>info\<close> command of the second invocation is counted
  in the delta.
\<close>

theorem consecutive_delta:
  assumes "check_db env1 st0 host port password1 db1 list_lengths1 custom_tags = (None, st1)"
      and "info_reply env1 = Inr info1"
      and "map_of info1 ''total_commands_processed'' = Some (PInt n1)"
      and "check_db env2 st1 host' port' password2 db2 list_lengths2 custom_tags' = (None, st2)"
      and "info_reply env2 = Inr info2"
      and "map_of info2 ''total_commands_processed'' = Some (PInt n2)"
      and "mk_tags host' port' custom_tags' = mk_tags host port custom_tags"
  shows "filter (\<lambda>s. sample_name s = ''redis.net.commands'') (emitted st1 st2) =
           [Gauge ''redis.net.commands'' (PInt (n2 - n1)) (mk_tags host port custom_tags)]"
proof -
  let ?tags = "mk_tags host port custom_tags"
  have "previous_total_commands st1 ?tags = Some (PInt (n1 - 1))"
    using command_step(1) [OF assms(1) assms(2) assms(3)] by simp
  then have "previous_total_commands st1 (mk_tags host' port' custom_tags') = Some (PInt (n1 - 1))"
    using assms(7) by simp
  from command_step(3) [OF assms(4) assms(5) assms(6) this]
  show ?thesis using assms(7) by simp
qed

theorem consecutive_delta_witness:
  "filter (\<lambda>s. sample_name s = ''redis.net.commands'')
     (emitted (snd (poll init_state 101)) (snd (poll (snd (poll init_state 101)) 151))) =
     [Gauge ''redis.net.commands'' (PInt (151 - 101)) (mk_tags ''localhost'' 6379 [])]
   \<and> fst (poll init_state 101) = None
   \<and> fst (poll (snd (poll init_state 101)) 151) = None"
proof -
  let ?env = "\<lambda>n. env_of True (Inr (poll_info n)) (\<lambda>_. Inr (PInt 0))"
  let ?s1 = "snd (poll init_state 101)"
  let ?s2 = "snd (poll ?s1 151)"
  have r1: "check_db (?env 101) init_state ''localhost'' 6379 None 0 [] [] = (None, ?s1)"
    using poll_first [of 101] by (simp add: poll_def)
  have r2: "check_db (?env 151) ?s1 ''localhost'' 6379 None 0 [] [] = (None, ?s2)"
    using poll_second [of 101 151] by (simp add: poll_def)
  have i: "info_reply (?env n) = Inr (poll_info n)" for n
    by (simp add: env_of_def)
  have t: "map_of (poll_info n) ''total_commands_processed'' = Some (PInt n)" for n
    by (simp add: poll_info_def)
  have f1: "fst (poll init_state 101) = None"
    by (simp add: poll_first)
  have f2: "fst (poll ?s1 151) = None"
    by (simp add: poll_second)
  show ?thesis
    using consecutive_delta [OF r1 i t r2 i t refl] f1 f2
    by simp
qed

section \<open>The hit ratio\<close>












section \<open>The end-to-end scenario\<close>

lemma for_each_skip:
  assumes "\<And>x s. \<not> P x \<Longrightarrow> body x s = (None, s)"
  shows "for_each body xs st = for_each body (filter P xs) st"
proof (induction xs arbitrary: st)
  case Nil
  then show ?case by simp
next
  case (Cons x xs)
  show ?case
  proof (cases "P x")
    case True
    then show ?thesis using Cons.IH by (simp split: prod.splits option.splits)
  next
    case False
    then show ?thesis using Cons.IH assms [of x st] by simp
  qed
qed

lemma save_db_stats_db_keys:
  "save_db_stats fl info tags st =
     for_each (save_db_entry fl info tags) (filter db_key_pattern_match (map fst info)) st"
  unfolding save_db_stats_def
  by (rule for_each_skip) (simp add: save_db_entry_def)

lemma save_db_entry_cong:
  "map_of info = map_of info' \<Longrightarrow> save_db_entry fl info tags = save_db_entry fl info' tags"
  by (simp add: save_db_entry_def fun_eq_iff)

text \<open>With no list to measure, an invocation reads its snapshot as a mapping, and
  the order of \<^verbatim>\<open>info.keys()\<close> only where it orders the per-database fields.\<close>

lemma extract_and_emit_cong:
  assumes "map_of info = map_of info'"
      and "filter db_key_pattern_match (map fst info) =
           filter db_key_pattern_match (map fst info')"
      and "float_of_str env = float_of_str env'"
  shows "extract_and_emit env info tags [] st = extract_and_emit env' info' tags [] st"
proof -
  have e: "save_db_entry (float_of_str env) info tags = save_db_entry (float_of_str env') info' tags"
    using save_db_entry_cong [OF assms(1)] assms(3) by simp
  have db: "save_db_stats (float_of_str env) info tags = save_db_stats (float_of_str env') info' tags"
    by (rule ext) (simp add: save_db_stats_db_keys assms(2) e)
  have "calc_ratio (float_of_str env) info tags = calc_ratio (float_of_str env') info' tags"
    unfolding calc_ratio_def assms(1) assms(3) by (rule refl)
  then have cr: "calc_ratios (float_of_str env) info tags =
                 calc_ratios (float_of_str env') info' tags"
    by (intro ext) (simp add: calc_ratios_def)
  have sg: "save_gauges info tags = save_gauges info' tags"
    and sr: "save_rates info tags = save_rates info' tags"
    and sc: "save_commands info tags = save_commands info' tags"
    using assms(1) by (simp_all add: save_gauges_def save_rates_def save_commands_def fun_eq_iff)
  show ?thesis
    by (simp add: extract_and_emit_def emit_metrics_def list_lengths_step_def db cr sg sr sc)
qed

lemma check_db_info_cong:
  assumes "info_reply env = Inr info"
      and "map_of info = map_of info'"
      and "filter db_key_pattern_match (map fst info) =
           filter db_key_pattern_match (map fst info')"
  shows "check_db env st host port password db [] custom_tags =
         check_db (env\<lparr>info_reply := Inr info'\<rparr>) st host port password db [] custom_tags"
proof -
  have gc: "get_conn (env\<lparr>info_reply := Inr info'\<rparr>) st host port password db =
            get_conn env st host port password db"
    by (simp add: get_conn_def Let_def split: option.splits)
  have ex: "extract_and_emit env info tags [] s =
            extract_and_emit (env\<lparr>info_reply := Inr info'\<rparr>) info' tags [] s" for tags s
    by (rule extract_and_emit_cong [OF assms(2) assms(3)]) simp
  show ?thesis
    by (simp add: check_db_def gc assms(1) ex split: prod.splits sum.splits)
qed

lemma singleton_list: "distinct xs \<Longrightarrow> set xs = {x} \<Longrightarrow> xs = [x]"
  by (cases xs) (auto simp: insert_eq_iff dest: subset_singletonD)

text \<open>
  C3: the end-to-end scenario. A first invocation of \<^verbatim>\<open>_check_db\<close> on a fresh check
  object, with no list to measure and a connection that can be built, whose snapshot
  is \<^verbatim>\<open>{used_memory: 1048576, keyspace_hits: 80, keyspace_misses: 20,
  total_commands_processed: 101, db0: {keys: 10, expires: 2}}\<close> (in whatever order
  the dictionary enumerates its fields) completes, and the sink has received exactly:
  the latency gauge; \<^verbatim>\<open>redis.keys\<close> = 10, \<^verbatim>\<open>redis.expires\<close> = 2 and
  \<^verbatim>\<open>redis.expires_ratio\<close> = 20.0, tagged with \<^verbatim>\<open>redis_db:db0\<close>; the two keyspace
  gauges; \<^verbatim>\<open>redis.mem.used\<close> = 1048576; \<^verbatim>\<open>redis.hit_ratio\<close> = 400.0. No
  \<^verbatim>\<open>redis.net.commands\<close> is among them, 100 is the one stored command count, under
  the tag list of the invocation, and nothing is logged. (The samples are listed in the
  order in which the model emits them.)
\<close>

theorem end_to_end_scenario:
  assumes reply: "info_reply env = Inr info"
      and keys: "distinct (map fst info)"
      and content: "set info =
        {(''used_memory'', PInt 1048576), (''keyspace_hits'', PInt 80),
         (''keyspace_misses'', PInt 20), (''total_commands_processed'', PInt 101),
         (''db0'', PDict [(''keys'', PInt 10), (''expires'', PInt 2)])}"
      and conn: "password = None \<or> password = Some [] \<or> auth_supported env"
  shows "fst (check_db env init_state host port password db [] custom_tags) = None
       \<and> metrics (snd (check_db env init_state host port password db [] custom_tags)) =
           [Gauge ''redis.info.latency_ms''
              (PFloat (py_round2 ((time_end env - time_start env) * 1000)))
              (mk_tags host port custom_tags),
            Gauge ''redis.keys'' (PInt 10) (mk_tags host port custom_tags @ [''redis_db:db0'']),
            Gauge ''redis.expires'' (PInt 2) (mk_tags host port custom_tags @ [''redis_db:db0'']),
            Gauge ''redis.expires_ratio'' (PFloat 20)
              (mk_tags host port custom_tags @ [''redis_db:db0'']),
            Gauge ''redis.stats.keyspace_hits'' (PInt 80) (mk_tags host port custom_tags),
            Gauge ''redis.stats.keyspace_misses'' (PInt 20) (mk_tags host port custom_tags),
            Gauge ''redis.mem.used'' (PInt 1048576) (mk_tags host port custom_tags),
            Gauge ''redis.hit_ratio'' (PFloat 400) (mk_tags host port custom_tags)]
       \<and> previous_total_commands
           (snd (check_db env init_state host port password db [] custom_tags)) =
           [mk_tags host port custom_tags \<mapsto> PInt 100]
       \<and> logs (snd (check_db env init_state host port password db [] custom_tags)) = []"
proof -
  let ?S = "[(''used_memory'', PInt 1048576), (''keyspace_hits'', PInt 80),
             (''keyspace_misses'', PInt 20), (''total_commands_processed'', PInt 101),
             (''db0'', PDict [(''keys'', PInt 10), (''expires'', PInt 2)])]"
  let ?env = "env\<lparr>info_reply := Inr ?S\<rparr>"
  have "set info = set ?S" using content by simp
  moreover have "distinct (map fst ?S)" by simp
  ultimately have m: "map_of info = map_of ?S"
    using keys map_of_inject_set by blast
  have fS: "filter db_key_pattern_match (map fst ?S) = [''db0'']"
    by (simp add: db_key_pattern_match_def is_digit_def)
  have "set (filter db_key_pattern_match (map fst info)) = {''db0''}"
    by (auto simp: content db_key_pattern_match_def is_digit_def)
  moreover have "distinct (filter db_key_pattern_match (map fst info))"
    using keys by simp
  ultimately have "filter db_key_pattern_match (map fst info) = [''db0'']"
    by (rule singleton_list [rotated])
  with fS have f: "filter db_key_pattern_match (map fst info) =
                   filter db_key_pattern_match (map fst ?S)"
    by simp
  have eq: "check_db env init_state host port password db [] custom_tags =
            check_db ?env init_state host port password db [] custom_tags"
    using reply m f by (rule check_db_info_cong)
  from conn consider "password = None" | "password = Some []"
    | pw where "password = Some pw" "pw \<noteq> []" "auth_supported env"
    by (cases password) auto
  then show ?thesis
  proof cases
    case 1
    then show ?thesis unfolding eq by (simp add: check_db_eval)
  next
    case 2
    then show ?thesis unfolding eq by (simp add: check_db_eval)
  next
    case 3
    then show ?thesis unfolding eq by (simp add: check_db_eval)
  qed
qed

theorem end_to_end_scenario_witness:
  "fst (check_db
     (env_of False
        (Inr [(''db0'', PDict [(''keys'', PInt 10), (''expires'', PInt 2)]),
              (''total_commands_processed'', PInt 101), (''keyspace_misses'', PInt 20),
              (''keyspace_hits'', PInt 80), (''used_memory'', PInt 1048576)])
        (\<lambda>_. Inr (PInt 0)))
     init_state ''localhost'' 6379 None 0 [] []) = None
   \<and> previous_total_commands (snd (check_db
     (env_of False
        (Inr [(''db0'', PDict [(''keys'', PInt 10), (''expires'', PInt 2)]),
              (''total_commands_processed'', PInt 101), (''keyspace_misses'', PInt 20),
              (''keyspace_hits'', PInt 80), (''used_memory'', PInt 1048576)])
        (\<lambda>_. Inr (PInt 0)))
     init_state ''localhost'' 6379 None 0 [] [])) =
     [mk_tags ''localhost'' 6379 [] \<mapsto> PInt 100]
   \<and> metrics (snd (check_db
     (env_of False
        (Inr [(''db0'', PDict [(''keys'', PInt 10), (''expires'', PInt 2)]),
              (''total_commands_processed'', PInt 101), (''keyspace_misses'', PInt 20),
              (''keyspace_hits'', PInt 80), (''used_memory'', PInt 1048576)])
        (\<lambda>_. Inr (PInt 0)))
     init_state ''localhost'' 6379 None 0 [] [])) =
     [Gauge ''redis.info.latency_ms'' (PFloat 0) (mk_tags ''localhost'' 6379 []),
      Gauge ''redis.keys'' (PInt 10) (mk_tags ''localhost'' 6379 [] @ [''redis_db:db0'']),
      Gauge ''redis.expires'' (PInt 2) (mk_tags ''localhost'' 6379 [] @ [''redis_db:db0'']),
      Gauge ''redis.expires_ratio'' (PFloat 20)
        (mk_tags ''localhost'' 6379 [] @ [''redis_db:db0'']),
      Gauge ''redis.stats.keyspace_hits'' (PInt 80) (mk_tags ''localhost'' 6379 []),
      Gauge ''redis.stats.keyspace_misses'' (PInt 20) (mk_tags ''localhost'' 6379 []),
      Gauge ''redis.mem.used'' (PInt 1048576) (mk_tags ''localhost'' 6379 []),
      Gauge ''redis.hit_ratio'' (PFloat 400) (mk_tags ''localhost'' 6379 [])]"
proof -
  let ?info = "[(''db0'', PDict [(''keys'', PInt 10), (''expires'', PInt 2)]),
                (''total_commands_processed'', PInt 101), (''keyspace_misses'', PInt 20),
                (''keyspace_hits'', PInt 80), (''used_memory'', PInt 1048576)]"
  let ?env = "env_of False (Inr ?info) (\<lambda>_. Inr (PInt 0))"
  have reply: "info_reply ?env = Inr ?info" by (simp add: env_of_def)
  have keys: "distinct (map fst ?info)" by simp
  have content: "set ?info =
        {(''used_memory'', PInt 1048576), (''keyspace_hits'', PInt 80),
         (''keyspace_misses'', PInt 20), (''total_commands_processed'', PInt 101),
         (''db0'', PDict [(''keys'', PInt 10), (''expires'', PInt 2)])}"
    by auto
  have conn: "(None :: string option) = None \<or> None = Some [] \<or> auth_supported ?env"
    by simp
  have t: "time_end ?env = 0" "time_start ?env = 0" by (simp_all add: env_of_def)
  show ?thesis
    using end_to_end_scenario [OF reply keys content conn, of "''localhost''" 6379 0 "[]"]
    by (simp add: t)
qed

section \<open>Where an invocation stops short\<close>

text \<open>
  C1: a per-database entry with \<^verbatim>\<open>keys\<close> = 0. The claim has the check skip the
  ratio silently and go on. The code divides by \<^verbatim>\<open>float(0)\<close> on line 143 inside a
  \<^verbatim>\<open>try\<close> that catches \<^verbatim>\<open>AttributeError\<close> only: on the snapshot
  \<^verbatim>\<open>{db0: {keys: 0, expires: e}, keyspace_hits: 80, keyspace_misses: 20,
  total_commands_processed: 101}\<close>, for every integer \<open>e\<close>, the first invocation
  raises \<^verbatim>\<open>ZeroDivisionError\<close>. No \<^verbatim>\<open>redis.expires_ratio\<close> is emitted, but neither
  is any sample after \<^verbatim>\<open>redis.expires\<close>: the db-wide gauges and the hit ratio are
  never reached, no command count is stored and nothing is logged.
\<close>

theorem zero_keys_raises:
  "fst (check_db
          (env\<lparr>info_reply := Inr [(''db0'', PDict [(''keys'', PInt 0), (''expires'', PInt e)]),
                                  (''keyspace_hits'', PInt 80), (''keyspace_misses'', PInt 20),
                                  (''total_commands_processed'', PInt 101)]\<rparr>)
          init_state host port None db list_lengths custom_tags) = Some ZeroDivisionError
   \<and> metrics (snd (check_db
          (env\<lparr>info_reply := Inr [(''db0'', PDict [(''keys'', PInt 0), (''expires'', PInt e)]),
                                  (''keyspace_hits'', PInt 80), (''keyspace_misses'', PInt 20),
                                  (''total_commands_processed'', PInt 101)]\<rparr>)
          init_state host port None db list_lengths custom_tags)) =
       [Gauge ''redis.info.latency_ms''
          (PFloat (py_round2 ((time_end env - time_start env) * 1000)))
          (mk_tags host port custom_tags),
        Gauge ''redis.keys'' (PInt 0) (mk_tags host port custom_tags @ [''redis_db:db0'']),
        Gauge ''redis.expires'' (PInt e) (mk_tags host port custom_tags @ [''redis_db:db0''])]
   \<and> previous_total_commands (snd (check_db
          (env\<lparr>info_reply := Inr [(''db0'', PDict [(''keys'', PInt 0), (''expires'', PInt e)]),
                                  (''keyspace_hits'', PInt 80), (''keyspace_misses'', PInt 20),
                                  (''total_commands_processed'', PInt 101)]\<rparr>)
          init_state host port None db list_lengths custom_tags)) = Map.empty
   \<and> logs (snd (check_db
          (env\<lparr>info_reply := Inr [(''db0'', PDict [(''keys'', PInt 0), (''expires'', PInt e)]),
                                  (''keyspace_hits'', PInt 80), (''keyspace_misses'', PInt 20),
                                  (''total_commands_processed'', PInt 101)]\<rparr>)
          init_state host port None db list_lengths custom_tags)) = []"
  by (simp add: check_db_eval)

text \<open>
  C5: a snapshot that lacks a field of the ratio map. The claim has the ratio step skip
  the derived metric and the invocation go on. The code subscripts the snapshot on
  lines 154 and 155 with no membership test: without \<^verbatim>\<open>keyspace_misses\<close> (or
  without \<^verbatim>\<open>keyspace_hits\<close>) the invocation raises \<^verbatim>\<open>KeyError\<close> for that field.
  With the list \<^verbatim>\<open>jobs\<close> requested and its length query answering 3, no
  \<^verbatim>\<open>redis.llen.jobs\<close> is emitted and no command count is stored.
\<close>

theorem missing_ratio_field_raises:
  "fst (check_db
          (env\<lparr>info_reply := Inr [(''keyspace_hits'', PInt 80),
                                  (''total_commands_processed'', PInt 101)],
               llen_reply := (\<lambda>_. Inr (PInt 3))\<rparr>)
          init_state host port None db [''jobs''] custom_tags) = Some (KeyError ''keyspace_misses'')
   \<and> metrics (snd (check_db
          (env\<lparr>info_reply := Inr [(''keyspace_hits'', PInt 80),
                                  (''total_commands_processed'', PInt 101)],
               llen_reply := (\<lambda>_. Inr (PInt 3))\<rparr>)
          init_state host port None db [''jobs''] custom_tags)) =
       [Gauge ''redis.info.latency_ms''
          (PFloat (py_round2 ((time_end env - time_start env) * 1000)))
          (mk_tags host port custom_tags),
        Gauge ''redis.stats.keyspace_hits'' (PInt 80) (mk_tags host port custom_tags)]
   \<and> previous_total_commands (snd (check_db
          (env\<lparr>info_reply := Inr [(''keyspace_hits'', PInt 80),
                                  (''total_commands_processed'', PInt 101)],
               llen_reply := (\<lambda>_. Inr (PInt 3))\<rparr>)
          init_state host port None db [''jobs''] custom_tags)) = Map.empty
   \<and> fst (check_db
          (env\<lparr>info_reply := Inr [(''keyspace_misses'', PInt 20),
                                  (''total_commands_processed'', PInt 101)],
               llen_reply := (\<lambda>_. Inr (PInt 3))\<rparr>)
          init_state host port None db [''jobs''] custom_tags) = Some (KeyError ''keyspace_hits'')"
  by (simp add: check_db_eval)

text \<open>
  C7: a list whose length query raises a response error. The check emits no
  \<^verbatim>\<open>redis.llen.nosuchlist\<close>, goes on to the next list (\<^verbatim>\<open>redis.llen.jobs\<close> = 3 is
  emitted) and to the command count (100 is stored), and logs one error. But the
  message of line 167 is formatted with \<^verbatim>\<open>key\<close>, the variable the loop over the
  snapshot left behind, not with \<^verbatim>\<open>_list\<close>: the logged name is the last field of
  the snapshot, here \<^verbatim>\<open>total_commands_processed\<close>, and the failing list is not named
  anywhere in the log.
\<close>

theorem llen_error_names_snapshot_field:
  "fst (check_db
          (env\<lparr>info_reply := Inr [(''keyspace_hits'', PInt 80), (''keyspace_misses'', PInt 20),
                                  (''total_commands_processed'', PInt 101)],
               llen_reply := (\<lambda>name. if name = ''nosuchlist'' then Inl (ResponseError msg)
                                      else Inr (PInt 3))\<rparr>)
          init_state host port None db [''nosuchlist'', ''jobs''] custom_tags) = None
   \<and> logs (snd (check_db
          (env\<lparr>info_reply := Inr [(''keyspace_hits'', PInt 80), (''keyspace_misses'', PInt 20),
                                  (''total_commands_processed'', PInt 101)],
               llen_reply := (\<lambda>name. if name = ''nosuchlist'' then Inl (ResponseError msg)
                                      else Inr (PInt 3))\<rparr>)
          init_state host port None db [''nosuchlist'', ''jobs''] custom_tags)) =
       [LogError ''Could not get length of %s: %s ''
          [ArgVal (PStr ''total_commands_processed''), ArgExn (ResponseError msg)]]
   \<and> metrics (snd (check_db
          (env\<lparr>info_reply := Inr [(''keyspace_hits'', PInt 80), (''keyspace_misses'', PInt 20),
                                  (''total_commands_processed'', PInt 101)],
               llen_reply := (\<lambda>name. if name = ''nosuchlist'' then Inl (ResponseError msg)
                                      else Inr (PInt 3))\<rparr>)
          init_state host port None db [''nosuchlist'', ''jobs''] custom_tags)) =
       [Gauge ''redis.info.latency_ms''
          (PFloat (py_round2 ((time_end env - time_start env) * 1000)))
          (mk_tags host port custom_tags),
        Gauge ''redis.stats.keyspace_hits'' (PInt 80) (mk_tags host port custom_tags),
        Gauge ''redis.stats.keyspace_misses'' (PInt 20) (mk_tags host port custom_tags),
        Gauge ''redis.hit_ratio'' (PFloat 400) (mk_tags host port custom_tags),
        Gauge ''redis.llen.jobs'' (PInt 3) (mk_tags host port custom_tags)]
   \<and> previous_total_commands (snd (check_db
          (env\<lparr>info_reply := Inr [(''keyspace_hits'', PInt 80), (''keyspace_misses'', PInt 20),
                                  (''total_commands_processed'', PInt 101)],
               llen_reply := (\<lambda>name. if name = ''nosuchlist'' then Inl (ResponseError msg)
                                      else Inr (PInt 3))\<rparr>)
          init_state host port None db [''nosuchlist'', ''jobs''] custom_tags)) =
       [mk_tags host port custom_tags \<mapsto> PInt 100]"
  by (simp add: check_db_eval)

section \<open>Further properties of the code\<close>

text \<open>
  A per-database field that holds a legacy string. The loop body emits
  \<^verbatim>\<open>redis.keys\<close> and \<^verbatim>\<open>redis.expires\<close> and then raises \<^verbatim>\<open>TypeError\<close>: line 143
  subscripts the string with \<^verbatim>\<open>'expires'\<close>, and the handler of line 145 catches
  \<^verbatim>\<open>AttributeError\<close> only. An invocation that meets such a field ends there.
\<close>

theorem legacy_string_raises:
  assumes "db_key_pattern_match key" and "map_of info key = Some (PStr s)"
  shows "fst (save_db_entry fl info tags key st) = Some TypeError
       \<and> map sample_name (emitted st (snd (save_db_entry fl info tags key st))) =
           [''redis.keys'', ''redis.expires'']"
proof -
  define t where "t = tags @ [''redis_db:'' @ key]"
  define s1 where "s1 = save_subkey (PStr s) t st ''keys''"
  define s2 where "s2 = save_subkey (PStr s) t s1 ''expires''"
  have r: "save_db_entry fl info tags key st = (Some TypeError, s2)"
    using save_db_entry_legacy [OF assms] by (simp only: s2_def s1_def t_def)
  obtain v1 where m1: "metrics s1 = metrics st @ [Gauge (''redis.'' @ ''keys'') v1 t]"
    unfolding s1_def using save_subkey_metrics by blast
  obtain v2 where m2: "metrics s2 = metrics s1 @ [Gauge (''redis.'' @ ''expires'') v2 t]"
    unfolding s2_def using save_subkey_metrics by blast
  show ?thesis
    by (simp add: r m1 m2 emitted_def)
qed

theorem legacy_string_raises_witness:
  "fst (save_db_entry (\<lambda>_. None) [(''db0'', PStr ''keys=3,expires=0'')] [] ''db0'' init_state)
     = Some TypeError
   \<and> map sample_name (emitted init_state
        (snd (save_db_entry (\<lambda>_. None) [(''db0'', PStr ''keys=3,expires=0'')] [] ''db0''
           init_state))) = [''redis.keys'', ''redis.expires'']"
proof -
  have m: "db_key_pattern_match ''db0''"
    by (simp add: db_key_pattern_match_def is_digit_def)
  have i: "map_of [(''db0'', PStr ''keys=3,expires=0'')] ''db0'' = Some (PStr ''keys=3,expires=0'')"
    by simp
  show ?thesis
    using legacy_string_raises [OF m i, of "\<lambda>_. None" "[]" init_state] by simp
qed

text \<open>
  A per-database dictionary whose \<^verbatim>\<open>keys\<close> converts to the float 0, with any
  \<^verbatim>\<open>expires\<close> that converts to a float: the loop body raises
  \<^verbatim>\<open>ZeroDivisionError\<close>.
\<close>

theorem zero_keys_entry_raises:
  assumes "db_key_pattern_match key" and "map_of info key = Some (PDict d)"
      and "map_of d ''keys'' = Some kv" and "py_float fl kv = Inr 0"
      and "map_of d ''expires'' = Some ev" and "py_float fl ev = Inr a"
  shows "fst (save_db_entry fl info tags key st) = Some ZeroDivisionError"
  using assms
  by (simp add: save_db_entry_def expires_ratio_def py_getitem_def py_fdiv_def Let_def)

theorem zero_keys_entry_raises_witness:
  "fst (save_db_entry (\<lambda>_. None)
          [(''db0'', PDict [(''keys'', PInt 0), (''expires'', PInt 5)])] [] ''db0'' init_state)
     = Some ZeroDivisionError"
proof -
  have m: "db_key_pattern_match ''db0''"
    by (simp add: db_key_pattern_match_def is_digit_def)
  show ?thesis
    using zero_keys_entry_raises [OF m, of "[(''db0'', PDict [(''keys'', PInt 0), (''expires'', PInt 5)])]"
        "[(''keys'', PInt 0), (''expires'', PInt 5)]" "PInt 0" "\<lambda>_. None" "PInt 5" 5 "[]" init_state]
    by (simp add: py_float_def)
qed

text \<open>
  The tag identity under which the command count is stored is the sorted list of
  the distinct tags: it depends on the set of custom tags only, and is sorted and free
  of duplicates.
\<close>

theorem tag_identity_is_a_set:
  assumes "set custom_tags' = set custom_tags"
  shows "mk_tags host port custom_tags' = mk_tags host port custom_tags
       \<and> sorted (mk_tags host port custom_tags) \<and> distinct (mk_tags host port custom_tags)"
  using mk_tags_set [OF assms] by (simp add: mk_tags_def)

theorem tag_identity_is_a_set_witness:
  "mk_tags ''h'' 6379 [''b'', ''a'', ''b''] = mk_tags ''h'' 6379 [''a'', ''b'']
   \<and> sorted (mk_tags ''h'' 6379 [''a'', ''b'']) \<and> distinct (mk_tags ''h'' 6379 [''a'', ''b''])"
proof -
  have "set [''b'', ''a'', ''b''] = set [''a'', ''b'']" by auto
  from tag_identity_is_a_set [OF this] show ?thesis by blast
qed

end
